theory Spec2Isabelle
  imports Main "HOL-Library.Word" "HOL-Library.Sublist"
begin

section \<open>JavaScript strings\<close>

text \<open>
  A JavaScript string is a sequence of 16-bit code units. Literals of the source are
  written with \<open>js\<close>; all of them are ASCII.
\<close>

type_synonym codeunit = "16 word"
type_synonym jsstring = "codeunit list"

definition js :: "string \<Rightarrow> jsstring" where
  "js s = map of_char s"

definition LF :: codeunit where
  "LF = 0x0A"

definition SP :: codeunit where
  "SP = 0x20"

definition LT :: codeunit where
  "LT = 0x3C"

text \<open>
  The line terminators of ECMAScript (LF, CR, LS, PS): the characters that \<open>.\<close> in a
  regular expression without the \<open>s\<close> flag does not match.
\<close>

definition isLineTerminator :: "codeunit \<Rightarrow> bool" where
  "isLineTerminator c = (c = 0x0A \<or> c = 0x0D \<or> c = 0x2028 \<or> c = 0x2029)"

text \<open>
  White space and line terminators: what \<open>String.prototype.trim\<close> strips and what
  \<open>\s\<close> matches (TAB, LF, VT, FF, CR, space, NBSP, the other space separators, LS, PS
  and the byte order mark).
\<close>

definition isWhiteSpace :: "codeunit \<Rightarrow> bool" where
  "isWhiteSpace c =
     ((0x09 \<le> c \<and> c \<le> 0x0D) \<or> c = 0x20 \<or> c = 0xA0 \<or> c = 0x1680 \<or>
      (0x2000 \<le> c \<and> c \<le> 0x200A) \<or> c = 0x2028 \<or> c = 0x2029 \<or> c = 0x202F \<or>
      c = 0x205F \<or> c = 0x3000 \<or> c = 0xFEFF)"

text \<open>\<open>String.prototype.trim\<close>.\<close>

definition trim :: "jsstring \<Rightarrow> jsstring" where
  "trim s = rev (dropWhile isWhiteSpace (rev (dropWhile isWhiteSpace s)))"

text \<open>
  \<open>s.split("\n")\<close>: the pieces between the line feeds; a string without a line feed,
  the empty one too, is one piece.
\<close>

fun split :: "jsstring \<Rightarrow> jsstring list" where
  "split [] = [[]]"
| "split (c # s) =
     (if c = LF then [] # split s
      else (case split s of l # ls \<Rightarrow> (c # l) # ls | [] \<Rightarrow> [[c]]))"

text \<open>\<open>lines.join("\n")\<close>.\<close>

fun join :: "jsstring list \<Rightarrow> jsstring" where
  "join [] = []"
| "join [l] = l"
| "join (l # ls) = l @ LF # join ls"

section \<open>Regular expressions\<close>

text \<open>
  The patterns of the source use single characters, character classes, and the
  quantifiers \<open>?\<close>, \<open>*\<close>, \<open>+\<close> and \<open>*?\<close> on a single character or class; at most one
  capture group, a run of consecutive items. A pattern is therefore a sequence of items.
\<close>

datatype cls =
    Lit codeunit
  | Except codeunit
  | Range codeunit codeunit
  | Space
  | Dot

datatype item =
    One cls
  | Opt cls
  | Star cls
  | Plus cls
  | Lazy cls

datatype regex =
  Regex (ignoreCase: bool) (before: "item list") (group: "item list") (after: "item list")

text \<open>
  With the \<open>i\<close> flag two code units match when their canonical forms are equal. For a
  pattern character below 128, which all pattern characters of the source are, the
  canonical form of ECMAScript (simple upper-casing, never mapping a code unit of 128 or
  more to one below 128) identifies exactly the two ASCII cases of a letter. A range is
  matched as it is written: the only range of the source, \<open>[1-6]\<close>, is of digits, which
  have one case.
\<close>

definition canonicalize :: "bool \<Rightarrow> codeunit \<Rightarrow> codeunit" where
  "canonicalize i c = (if i \<and> 0x61 \<le> c \<and> c \<le> 0x7A then c - 0x20 else c)"

fun accepts :: "bool \<Rightarrow> cls \<Rightarrow> codeunit \<Rightarrow> bool" where
  "accepts i (Lit a) c = (canonicalize i c = canonicalize i a)"
| "accepts i (Except a) c = (canonicalize i c \<noteq> canonicalize i a)"
| "accepts i (Range a b) c = (a \<le> c \<and> c \<le> b)"
| "accepts i Space c = isWhiteSpace c"
| "accepts i Dot c = (\<not> isLineTerminator c)"

text \<open>
  The numbers of code units an item may consume at the head of \<open>s\<close>, in the order in
  which the backtracking matcher tries them: a greedy quantifier tries the longest run
  first, the lazy one the shortest.
\<close>

definition run :: "bool \<Rightarrow> cls \<Rightarrow> jsstring \<Rightarrow> nat" where
  "run i c s = length (takeWhile (accepts i c) s)"

fun choices :: "bool \<Rightarrow> item \<Rightarrow> jsstring \<Rightarrow> nat list" where
  "choices i (One c) s = (if 1 \<le> run i c s then [1] else [])"
| "choices i (Opt c) s = (if 1 \<le> run i c s then [1, 0] else [0])"
| "choices i (Star c) s = rev [0..<Suc (run i c s)]"
| "choices i (Plus c) s = rev [1..<Suc (run i c s)]"
| "choices i (Lazy c) s = [0..<Suc (run i c s)]"

fun firstSome :: "('a \<Rightarrow> 'b option) \<Rightarrow> 'a list \<Rightarrow> 'b option" where
  "firstSome f [] = None"
| "firstSome f (x # xs) = (case f x of Some y \<Rightarrow> Some y | None \<Rightarrow> firstSome f xs)"

text \<open>
  Matching a sequence of items at the head of \<open>s\<close>: the pieces of \<open>s\<close> consumed by each
  item, for the first choice (in backtracking order) with which the rest of the pattern
  matches.
\<close>

primrec matchItems :: "bool \<Rightarrow> item list \<Rightarrow> jsstring \<Rightarrow> jsstring list option" where
  "matchItems i [] = (\<lambda>s. Some [])"
| "matchItems i (it # r) =
     (\<lambda>s. firstSome
        (\<lambda>k. case matchItems i r (drop k s) of
                Some ps \<Rightarrow> Some (take k s # ps)
              | None \<Rightarrow> None)
        (choices i it s))"

definition matchHere :: "regex \<Rightarrow> jsstring \<Rightarrow> jsstring list option" where
  "matchHere re s = matchItems (ignoreCase re) (before re @ group re @ after re) s"

text \<open>The text of the capture group, \<open>$1\<close>, among the pieces of a match.\<close>

definition captured :: "regex \<Rightarrow> jsstring list \<Rightarrow> jsstring" where
  "captured re ps = concat (take (length (group re)) (drop (length (before re)) ps))"

text \<open>A replacement string: literal text and references \<open>$1\<close>.\<close>

datatype part = T jsstring | G1

fun expand :: "regex \<Rightarrow> jsstring list \<Rightarrow> part list \<Rightarrow> jsstring" where
  "expand re ps [] = []"
| "expand re ps (T t # r) = t @ expand re ps r"
| "expand re ps (G1 # r) = captured re ps @ expand re ps r"

text \<open>
  \<open>s.replace(re, t)\<close> for a regular expression with the \<open>g\<close> flag: the leftmost match
  is replaced and the search goes on behind it; behind an empty match it goes on one
  code unit later.
\<close>

function replace :: "regex \<Rightarrow> part list \<Rightarrow> jsstring \<Rightarrow> jsstring" where
  "replace re t [] =
     (case matchHere re [] of None \<Rightarrow> [] | Some ps \<Rightarrow> expand re ps t)"
| "replace re t (c # s) =
     (case matchHere re (c # s) of
        None \<Rightarrow> c # replace re t s
      | Some ps \<Rightarrow>
          (case length (concat ps) of
             0 \<Rightarrow> expand re ps t @ c # replace re t s
           | Suc k \<Rightarrow> expand re ps t @ replace re t (drop k s)))"
  by pat_completeness auto
termination
  by (relation "measure (\<lambda>(re, t, s). length s)") auto

definition lit :: "string \<Rightarrow> item list" where
  "lit s = map (\<lambda>c. One (Lit (of_char c))) s"

section \<open>stripHtmlTags\<close>

text \<open>The regular expressions of \<open>stripHtmlTags\<close>, in the order of the source.\<close>

definition scriptRe :: regex where
  "scriptRe = Regex True
     (lit ''<script'' @ [Star (Except (of_char CHR ''>'')), One (Lit (of_char CHR ''>'')), Lazy Dot]
      @ lit ''</script>'') [] []"

definition styleRe :: regex where
  "styleRe = Regex True
     (lit ''<style'' @ [Star (Except (of_char CHR ''>'')), One (Lit (of_char CHR ''>'')), Lazy Dot]
      @ lit ''</style>'') [] []"

definition headingRe :: regex where
  "headingRe = Regex True
     (lit ''<h'' @ [One (Range (of_char CHR ''1'') (of_char CHR ''6'')),
       Star (Except (of_char CHR ''>'')), One (Lit (of_char CHR ''>''))])
     [Lazy Dot]
     (lit ''</h'' @ [One (Range (of_char CHR ''1'') (of_char CHR ''6'')),
       One (Lit (of_char CHR ''>''))])"

definition pRe :: regex where
  "pRe = Regex True
     (lit ''<'' @ [Opt (Lit (of_char CHR ''/''))] @ lit ''p''
      @ [Star (Except (of_char CHR ''>'')), One (Lit (of_char CHR ''>''))]) [] []"

definition divRe :: regex where
  "divRe = Regex True
     (lit ''<'' @ [Opt (Lit (of_char CHR ''/''))] @ lit ''div''
      @ [Star (Except (of_char CHR ''>'')), One (Lit (of_char CHR ''>''))]) [] []"

definition brRe :: regex where
  "brRe = Regex True
     (lit ''<br'' @ [Star Space, Opt (Lit (of_char CHR ''/'')), One (Lit (of_char CHR ''>''))])
     [] []"

definition strongRe :: regex where
  "strongRe = Regex True
     (lit ''<strong'' @ [Star (Except (of_char CHR ''>'')), One (Lit (of_char CHR ''>''))])
     [Lazy Dot]
     (lit ''</strong>'')"

definition bRe :: regex where
  "bRe = Regex True
     (lit ''<b'' @ [Star (Except (of_char CHR ''>'')), One (Lit (of_char CHR ''>''))])
     [Lazy Dot]
     (lit ''</b>'')"

definition tagRe :: regex where
  "tagRe = Regex False
     (lit ''<'' @ [Plus (Except (of_char CHR ''>'')), One (Lit (of_char CHR ''>''))]) [] []"

definition spacesRe :: regex where
  "spacesRe = Regex False [Plus (Lit SP)] [] []"

definition newlinesRe :: regex where
  "newlinesRe = Regex False [One (Lit LF), Plus (Lit LF)] [] []"

definition disclaimer :: jsstring where
  "disclaimer = js ''**Disclaimer:**''"

definition disclaimerRe :: regex where
  "disclaimerRe = Regex False [] (lit ''**Disclaimer:**'') []"

text \<open>
  The steps of \<open>stripHtmlTags\<close> before the entities are decoded: script and style
  blocks, headings, paragraphs and divs, line breaks, strong and bold, all other tags.
\<close>

definition removeScriptStyle :: "jsstring \<Rightarrow> jsstring" where
  "removeScriptStyle html = replace styleRe [] (replace scriptRe [] html)"

definition convertHeadings :: "jsstring \<Rightarrow> jsstring" where
  "convertHeadings text =
     replace headingRe [T [LF], G1, T (LF # replicate 40 (of_char CHR ''='') @ [LF])] text"

definition convertBold :: "jsstring \<Rightarrow> jsstring" where
  "convertBold text =
     replace bRe [T (js ''**''), G1, T (js ''**'')]
       (replace strongRe [T (js ''**''), G1, T (js ''**'')] text)"

definition stripMarkup :: "jsstring \<Rightarrow> jsstring" where
  "stripMarkup html =
     replace tagRe []
       (convertBold
         (replace brRe [T [LF]]
           (replace divRe [T [LF]]
             (replace pRe [T [LF]]
               (convertHeadings (removeScriptStyle html))))))"

text \<open>The whitespace clean-up behind the decoding, up to the joined lines.\<close>

definition collapseSpaces :: "jsstring \<Rightarrow> jsstring" where
  "collapseSpaces text = replace spacesRe [T [SP]] text"

definition collapseNewlines :: "jsstring \<Rightarrow> jsstring" where
  "collapseNewlines text = replace newlinesRe [T [LF]] text"

definition cleanLines :: "jsstring \<Rightarrow> jsstring" where
  "cleanLines text =
     join (filter (\<lambda>line. length line > 0)
       (map trim (split (collapseNewlines (collapseSpaces text)))))"

definition separateDisclaimer :: "jsstring \<Rightarrow> jsstring" where
  "separateDisclaimer text = replace disclaimerRe [T [LF], G1] text"

text \<open>
  \<open>stripHtmlTags\<close>. The source decodes the entities by assigning the text to the
  \<open>innerHTML\<close> of a \<open>textarea\<close> element and reading its \<open>value\<close>; that decoder belongs
  to the browser and is the parameter \<open>decode\<close>. The general theorems below hold for
  every decoder. The worked examples take the identity for it: the text that reaches the
  decoder in them holds no \<open>&\<close> (and no carriage return or NUL), and on such a text the
  browser's decoding changes nothing.
\<close>

definition stripHtmlTags :: "(jsstring \<Rightarrow> jsstring) \<Rightarrow> jsstring \<Rightarrow> jsstring" where
  "stripHtmlTags decode html =
     (if html = [] then []
      else trim (separateDisclaimer (cleanLines (decode (stripMarkup html)))))"

section \<open>solveCell\<close>

text \<open>
  The value of the selected cell, \<open>range.values[0][0]\<close>: a string, a number or a
  boolean. Of a number the code observes whether it is zero and its \<open>toString()\<close>,
  the two components of \<open>Number\<close>.
\<close>

datatype cell = Text jsstring | Number bool jsstring | Boolean bool

fun falsy :: "cell \<Rightarrow> bool" where
  "falsy (Text s) = (s = [])"
| "falsy (Number zero s) = zero"
| "falsy (Boolean b) = (\<not> b)"

fun toString :: "cell \<Rightarrow> jsstring" where
  "toString (Text s) = s"
| "toString (Number zero s) = s"
| "toString (Boolean b) = (if b then js ''true'' else js ''false'')"

text \<open>
  The request handed to \<open>fetch\<close>. \<open>body\<close> is the object given to \<open>JSON.stringify\<close>;
  the headers are listed in the order in which the source adds them.
\<close>

record request =
  url :: jsstring
  httpMethod :: jsstring
  headers :: "(jsstring \<times> jsstring) list"
  body :: "(jsstring \<times> jsstring) list"

text \<open>
  The values that \<open>response.json()\<close> can yield: any JSON value. Of a number the code
  observes whether it is zero and its conversion to a string, the two components of
  \<open>JNumber\<close>. The properties of an object are listed in the order of the text.
\<close>

datatype jsonValue =
    JNull
  | JBool bool
  | JNumber bool jsstring
  | JString jsstring
  | JArray "jsonValue list"
  | JObject "(jsstring \<times> jsonValue) list"

text \<open>Truthiness: \<open>null\<close>, \<open>false\<close>, zero and the empty string are falsy.\<close>

fun truthyValue :: "jsonValue \<Rightarrow> bool" where
  "truthyValue JNull = False"
| "truthyValue (JBool b) = b"
| "truthyValue (JNumber zero s) = (\<not> zero)"
| "truthyValue (JString s) = (s \<noteq> [])"
| "truthyValue (JArray xs) = True"
| "truthyValue (JObject ps) = True"

text \<open>
  The type errors that the engine throws in \<open>solveCell\<close>: reading a property of
  \<open>null\<close>, calling a property that is no function, converting an object that has no
  primitive value. Their messages are the engine's: \<open>engine\<close> below maps each error to
  its message, and \<open>v8\<close> holds the messages of V8 for the worked examples.
\<close>

datatype typeError =
    ReadOfNull jsstring
  | NotAFunction jsstring
  | NoPrimitive

fun v8 :: "typeError \<Rightarrow> jsstring" where
  "v8 (ReadOfNull k) = js ''Cannot read properties of null (reading '' @ [0x27] @ k @ [0x27] @ js '')''"
| "v8 (NotAFunction f) = f @ js '' is not a function''"
| "v8 NoPrimitive = js ''Cannot convert object to primitive value''"

text \<open>
  \<open>value.name\<close> for one of the names the code reads (\<open>success\<close>, \<open>analysis\<close>,
  \<open>formatted_answer\<close>, \<open>error\<close>): a type error on \<open>null\<close>; the property of an
  object, the last one of that name, or undefined (\<open>None\<close>); undefined on a string, a
  number, a boolean or an array, which have no property of these names.
\<close>

fun get :: "jsonValue \<Rightarrow> jsstring \<Rightarrow> typeError + jsonValue option" where
  "get JNull name = Inl (ReadOfNull name)"
| "get (JObject ps) name = Inr (map_of (rev ps) name)"
| "get v name = Inr None"

text \<open>
  \<open>a || b\<close> on values that may be undefined, and \<open>a || "literal"\<close>.
\<close>

definition truthyProperty :: "jsonValue option \<Rightarrow> bool" where
  "truthyProperty a = (case a of None \<Rightarrow> False | Some v \<Rightarrow> truthyValue v)"

definition orProperty :: "jsonValue option \<Rightarrow> jsonValue option \<Rightarrow> jsonValue option" where
  "orProperty a b = (if truthyProperty a then a else b)"

definition orLiteral :: "jsonValue option \<Rightarrow> jsstring \<Rightarrow> jsonValue" where
  "orLiteral a b = (case a of None \<Rightarrow> JString b | Some v \<Rightarrow> if truthyValue v then v else JString b)"

text \<open>
  The conversion of a value to a string (\<open>ToString\<close>), as \<open>new Error(message)\<close> and the
  assignment to \<open>textContent\<close> apply it; \<open>None\<close> when it throws the type error
  \<open>NoPrimitive\<close>. An array is the join of its elements with commas, \<open>null\<close> elements
  counting as empty; an object parsed from JSON is \<open>[object Object]\<close>, unless it has a
  property \<open>toString\<close> of its own, which is no function and leaves it without a
  primitive value.
\<close>

fun joinComma :: "jsstring list \<Rightarrow> jsstring" where
  "joinComma [] = []"
| "joinComma [l] = l"
| "joinComma (l # ls) = l @ 0x2C # joinComma ls"

primrec ToString :: "jsonValue \<Rightarrow> jsstring option" where
  "ToString JNull = Some (js ''null'')"
| "ToString (JBool b) = Some (if b then js ''true'' else js ''false'')"
| "ToString (JNumber zero s) = Some s"
| "ToString (JString s) = Some s"
| "ToString (JArray xs) =
     map_option joinComma
       (those (map (\<lambda>(x, r). if x = JNull then Some [] else r) (zip xs (map ToString xs))))"
| "ToString (JObject ps) =
     (if js ''toString'' \<in> fst ` set ps then None else Some (js ''[object Object]''))"

text \<open>
  A response: \<open>json\<close> is the outcome of \<open>response.json()\<close>, \<open>Inl\<close> with the message of
  the error it throws when the body is not JSON.
\<close>

record response =
  status :: nat
  statusText :: jsstring
  json :: "jsstring + jsonValue"

definition ok :: "response \<Rightarrow> bool" where
  "ok r = (200 \<le> status r \<and> status r \<le> 299)"

text \<open>What is written to the cell right of the selection, with its format.\<close>

record outputCell =
  cellValues :: jsstring
  fontColor :: jsstring
  wrapText :: bool
  verticalAlignment :: jsstring

text \<open>
  The effects of one run of \<open>solveCell\<close>: the requests sent, the cells written, the
  calls of \<open>showStatus\<close> (message and type), the messages of the errors logged, and
  whether the solve button is disabled when the run ends.
\<close>

record pane =
  fetched :: "request list"
  outputs :: "outputCell list"
  statuses :: "(jsstring \<times> jsstring) list"
  consoleErrors :: "jsstring list"
  solveBtnDisabled :: bool

definition idle :: pane where
  "idle = \<lparr>fetched = [], outputs = [], statuses = [], consoleErrors = [],
     solveBtnDisabled = False\<rparr>"

definition showStatus :: "jsstring \<Rightarrow> jsstring \<Rightarrow> pane \<Rightarrow> pane" where
  "showStatus message type p = p\<lparr>statuses := statuses p @ [(message, type)]\<rparr>"

definition GRANTMATH_API_URL :: jsstring where
  "GRANTMATH_API_URL = js ''https://api.grantmath.com/nlp-analysis''"

definition LOCAL_DEV_URL :: jsstring where
  "LOCAL_DEV_URL = js ''http://localhost:8000/nlp-analysis''"

definition API_URL :: "jsstring \<Rightarrow> jsstring" where
  "API_URL hostname = (if hostname = js ''localhost'' then LOCAL_DEV_URL else GRANTMATH_API_URL)"

text \<open>
  \<open>a || "literal"\<close> on a string that may be null or undefined: the empty string is
  falsy too.
\<close>

definition orElse :: "jsstring option \<Rightarrow> jsstring \<Rightarrow> jsstring" where
  "orElse a b = (case a of None \<Rightarrow> b | Some s \<Rightarrow> if s = [] then b else s)"

text \<open>The decimal digits of a number, as a template literal renders the status.\<close>

function decimal :: "nat \<Rightarrow> jsstring" where
  "decimal n =
     (if n < 10 then [of_nat (48 + n)] else decimal (n div 10) @ [of_nat (48 + n mod 10)])"
  by pat_completeness auto
termination
  by (relation "measure (\<lambda>n. n)") auto

text \<open>The headers and the request of lines 113 to 130.\<close>

definition buildHeaders :: "jsstring \<Rightarrow> (jsstring \<times> jsstring) list" where
  "buildHeaders apiKey =
     (js ''Content-Type'', js ''application/json'') #
     (if apiKey \<noteq> [] then [(js ''Authorization'', js ''Bearer '' @ apiKey)] else [])"

definition buildRequest :: "jsstring \<Rightarrow> jsstring \<Rightarrow> cell \<Rightarrow> request" where
  "buildRequest hostname apiKey question =
     \<lparr>url = API_URL hostname, httpMethod = js ''POST'', headers = buildHeaders apiKey,
      body = [(js ''question'', toString question)]\<rparr>"

text \<open>
  The answer handed to \<open>stripHtmlTags\<close> on line 156, for a \<open>result\<close> that is not
  \<open>null\<close>.
\<close>

definition property :: "jsonValue \<Rightarrow> jsstring \<Rightarrow> jsonValue option" where
  "property v name = (case get v name of Inl e \<Rightarrow> None | Inr a \<Rightarrow> a)"

definition rawAnswer :: "jsonValue \<Rightarrow> jsonValue" where
  "rawAnswer result =
     orLiteral
       (orProperty (property result (js ''analysis'')) (property result (js ''formatted_answer'')))
       (js ''No answer returned'')"

text \<open>
  The callback of \<open>Excel.run\<close>: the message of the error it throws, if it throws, and
  the pane. \<open>fetch\<close> is the network: \<open>Inl\<close> with the message of the error when the
  request fails in transport, the response otherwise. The calls of the host (loading the
  selection, \<open>context.sync\<close>) are taken to succeed; the timer that enables the button
  again and hides the status three seconds after a success lies behind the run.
  \<open>stripHtmlTags\<close> on an answer that is truthy and no string fails at its first
  \<open>html.replace\<close>, which is no function.
\<close>

definition excelRun ::
  "(jsstring \<Rightarrow> jsstring) \<Rightarrow> (typeError \<Rightarrow> jsstring) \<Rightarrow> (request \<Rightarrow> jsstring + response) \<Rightarrow>
   jsstring \<Rightarrow> jsstring \<Rightarrow> cell \<Rightarrow> pane \<Rightarrow> jsstring option \<times> pane" where
  "excelRun decode engine fetch hostname apiKey question p =
     (if falsy question \<or> trim (toString question) = [] then
        (None, showStatus
           (js ''Selected cell is empty. Please select a cell with a question.'')
           (js ''error'') p)
      else
        let p1 = (showStatus (js ''Computing solution...'') (js ''loading'') p)
                   \<lparr>solveBtnDisabled := True\<rparr>;
            req = buildRequest hostname apiKey question;
            p2 = p1\<lparr>fetched := fetched p1 @ [req]\<rparr>
        in case fetch req of
             Inl failure \<Rightarrow> (Some failure, p2)
           | Inr response \<Rightarrow>
               if \<not> ok response then
                 if status response = 401 then
                   (Some (js ''Invalid API key. Please check your API key.''), p2)
                 else if status response = 429 then
                   (Some (js ''Rate limit exceeded. Please wait or upgrade to Pro tier.''), p2)
                 else if status response = 400 then
                   (case json response of
                      Inl failure \<Rightarrow> (Some failure, p2)
                    | Inr errorData \<Rightarrow>
                        (case get errorData (js ''error'') of
                           Inl e \<Rightarrow> (Some (engine e), p2)
                         | Inr error \<Rightarrow>
                             (case ToString (orLiteral error (js ''Invalid question format'')) of
                                None \<Rightarrow> (Some (engine NoPrimitive), p2)
                              | Some message \<Rightarrow> (Some message, p2))))
                 else
                   (Some (js ''API error: '' @ decimal (status response) @ js '' ''
                            @ statusText response), p2)
               else
                 (case json response of
                    Inl failure \<Rightarrow> (Some failure, p2)
                  | Inr result \<Rightarrow>
                      (case get result (js ''success'') of
                         Inl e \<Rightarrow> (Some (engine e), p2)
                       | Inr success \<Rightarrow>
                           if \<not> truthyProperty success then
                             (case ToString (orLiteral (property result (js ''error''))
                                     (js ''Unknown error occurred'')) of
                                None \<Rightarrow> (Some (engine NoPrimitive), p2)
                              | Some error \<Rightarrow>
                                  (None,
                                   (showStatus error (js ''error'') p2)
                                     \<lparr>solveBtnDisabled := False\<rparr>))
                           else
                             (case rawAnswer result of
                                JString html \<Rightarrow>
                                  let answer = stripHtmlTags decode html;
                                      p3 = p2\<lparr>outputs := outputs p2 @
                                             [\<lparr>cellValues = answer, fontColor = js ''#166534'',
                                               wrapText = True,
                                               verticalAlignment = js ''Top''\<rparr>]\<rparr>
                                  in (None,
                                      showStatus (js ''Solution computed successfully!'')
                                        (js ''success'') p3)
                              | _ \<Rightarrow> (Some (engine (NotAFunction (js ''html.replace''))), p2)))))"

text \<open>
  \<open>solveCell\<close>, from an idle pane: \<open>stored\<close> is what \<open>localStorage.getItem\<close> returns
  for the key, \<open>question\<close> the value of the selected cell. An error thrown in the
  callback is caught, logged and shown.
\<close>

definition solveCell ::
  "(jsstring \<Rightarrow> jsstring) \<Rightarrow> (typeError \<Rightarrow> jsstring) \<Rightarrow> (request \<Rightarrow> jsstring + response) \<Rightarrow>
   jsstring \<Rightarrow> jsstring option \<Rightarrow> cell \<Rightarrow> pane" where
  "solveCell decode engine fetch hostname stored question =
     (let apiKey = orElse stored [] in
      case excelRun decode engine fetch hostname apiKey question idle of
        (None, p) \<Rightarrow> p
      | (Some message, p) \<Rightarrow>
          (showStatus
             (orElse (Some message)
                (js ''Failed to compute solution. Please contact support@solonai.com''))
             (js ''error'')
             (p\<lparr>consoleErrors := consoleErrors p @ [message]\<rparr>))
            \<lparr>solveBtnDisabled := False\<rparr>)"

section \<open>Shape of the normalized text\<close>

text \<open>Two consecutive spaces somewhere in a text.\<close>

fun doubleSpace :: "jsstring \<Rightarrow> bool" where
  "doubleSpace (a # b # s) = ((a = SP \<and> b = SP) \<or> doubleSpace (b # s))"
| "doubleSpace s = False"

text \<open>A line that is empty or holds white space only.\<close>

definition blank :: "jsstring \<Rightarrow> bool" where
  "blank l = list_all isWhiteSpace l"

text \<open>
  In a list of lines, every blank line is empty and stands right before a line that
  begins with the disclaimer marker.
\<close>

fun blankOnlyBeforeDisclaimer :: "jsstring list \<Rightarrow> bool" where
  "blankOnlyBeforeDisclaimer [] = True"
| "blankOnlyBeforeDisclaimer [l] = (\<not> blank l)"
| "blankOnlyBeforeDisclaimer (l # m # ls) =
     ((blank l \<longrightarrow> l = [] \<and> prefix disclaimer m) \<and> blankOnlyBeforeDisclaimer (m # ls))"

text \<open>
  In a list of lines, every line behind the first that begins with the disclaimer marker
  follows an empty line.
\<close>

fun disclaimerAfterEmpty :: "jsstring list \<Rightarrow> bool" where
  "disclaimerAfterEmpty [] = True"
| "disclaimerAfterEmpty [l] = True"
| "disclaimerAfterEmpty (l # m # ls) =
     ((prefix disclaimer m \<longrightarrow> l = []) \<and> disclaimerAfterEmpty (m # ls))"

section \<open>Requests and outcomes of solveCell\<close>

lemma trim_blank: "list_all isWhiteSpace q \<Longrightarrow> trim q = []"
  by (auto simp: trim_def list_all_iff dest: set_dropWhileD)

lemma get_property: "v \<noteq> JNull \<Longrightarrow> get v name = Inr (property v name)"
  by (cases v) (simp_all add: property_def)

lemma solveCell_fetched:
  "fetched (solveCell decode engine fetch hostname stored question) =
     (if falsy question \<or> trim (toString question) = [] then []
      else [buildRequest hostname (orElse stored []) question])"
  by (simp add: solveCell_def excelRun_def showStatus_def idle_def Let_def
           split: sum.split option.split jsonValue.split)

lemma solveCell_outputs:
  "outputs (solveCell decode engine fetch hostname stored question) =
     (if falsy question \<or> trim (toString question) = [] then []
      else case fetch (buildRequest hostname (orElse stored []) question) of
             Inl failure \<Rightarrow> []
           | Inr response \<Rightarrow>
               if \<not> ok response then []
               else (case json response of
                       Inl failure \<Rightarrow> []
                     | Inr result \<Rightarrow>
                         if result = JNull \<or> \<not> truthyProperty (property result (js ''success''))
                         then []
                         else (case rawAnswer result of
                                 JString html \<Rightarrow>
                                   [\<lparr>cellValues = stripHtmlTags decode html,
                                     fontColor = js ''#166534'', wrapText = True,
                                     verticalAlignment = js ''Top''\<rparr>]
                               | _ \<Rightarrow> [])))"
proof -
  have "outputs (solveCell decode engine fetch hostname stored question) =
     (if falsy question \<or> trim (toString question) = [] then []
      else case fetch (buildRequest hostname (orElse stored []) question) of
             Inl failure \<Rightarrow> []
           | Inr response \<Rightarrow>
               if \<not> ok response then []
               else (case json response of
                       Inl failure \<Rightarrow> []
                     | Inr result \<Rightarrow>
                         (case get result (js ''success'') of
                            Inl e \<Rightarrow> []
                          | Inr success \<Rightarrow>
                              if \<not> truthyProperty success then []
                              else (case rawAnswer result of
                                 JString html \<Rightarrow>
                                   [\<lparr>cellValues = stripHtmlTags decode html,
                                     fontColor = js ''#166534'', wrapText = True,
                                     verticalAlignment = js ''Top''\<rparr>]
                               | _ \<Rightarrow> []))))"
    by (simp add: solveCell_def excelRun_def showStatus_def idle_def Let_def
           split: sum.split option.split jsonValue.split)
  moreover have "(case get result (js ''success'') of
                            Inl e \<Rightarrow> []
                          | Inr success \<Rightarrow>
                              if \<not> truthyProperty success then [] else X) =
      (if result = JNull \<or> \<not> truthyProperty (property result (js ''success'')) then []
       else X)" for result and X :: "outputCell list"
    by (cases "result = JNull") (simp_all add: get_property)
  ultimately show ?thesis by (simp split: sum.split)
qed

lemma header_names_distinct: "js ''Authorization'' \<noteq> js ''Content-Type''"
  by (simp add: js_def)

lemma statuses_bad_request:
  assumes "\<not> falsy question" and "trim (toString question) \<noteq> []"
    and "fetch (buildRequest hostname (orElse stored []) question) = Inr response"
    and "status response = 400"
  shows "statuses (solveCell decode engine fetch hostname stored question) =
           [(js ''Computing solution...'', js ''loading''),
            (orElse (Some
               (case json response of
                  Inl failure \<Rightarrow> failure
                | Inr errorData \<Rightarrow>
                    (case get errorData (js ''error'') of
                       Inl e \<Rightarrow> engine e
                     | Inr error \<Rightarrow>
                         (case ToString (orLiteral error (js ''Invalid question format'')) of
                            None \<Rightarrow> engine NoPrimitive
                          | Some message \<Rightarrow> message))))
               (js ''Failed to compute solution. Please contact support@solonai.com''),
             js ''error'')]"
  using assms
  by (simp add: solveCell_def excelRun_def showStatus_def idle_def Let_def ok_def
           split: sum.split option.split)

lemma statuses_success:
  assumes "\<not> falsy question" and "trim (toString question) \<noteq> []"
    and "fetch (buildRequest hostname (orElse stored []) question) = Inr response"
    and "ok response" and "json response = Inr result" and "result \<noteq> JNull"
    and "truthyProperty (property result (js ''success''))"
  shows "statuses (solveCell decode engine fetch hostname stored question) =
           [(js ''Computing solution...'', js ''loading''),
            (case rawAnswer result of
               JString html \<Rightarrow> (js ''Solution computed successfully!'', js ''success'')
             | _ \<Rightarrow>
                 (orElse (Some (engine (NotAFunction (js ''html.replace''))))
                    (js ''Failed to compute solution. Please contact support@solonai.com''),
                  js ''error''))]"
  using assms
  by (simp add: solveCell_def excelRun_def showStatus_def idle_def Let_def get_property
           split: jsonValue.split)

text \<open>
  Claim C1. When the selected cell holds a string that is empty or made of white space
  only, \<open>solveCell\<close> sends no request, writes no cell, and shows the message for an
  empty cell as an error.
\<close>

theorem solveCell_blank_question:
  assumes "list_all isWhiteSpace q"
  shows "fetched (solveCell decode engine fetch hostname stored (Text q)) = [] \<and>
         outputs (solveCell decode engine fetch hostname stored (Text q)) = [] \<and>
         statuses (solveCell decode engine fetch hostname stored (Text q)) =
           [(js ''Selected cell is empty. Please select a cell with a question.'', js ''error'')]"
  using trim_blank [OF assms]
  by (simp add: solveCell_def excelRun_def showStatus_def idle_def)

theorem solveCell_blank_question_witness:
  "fetched (solveCell (\<lambda>t. t) v8 (\<lambda>r. Inl (js ''Failed to fetch'')) (js ''localhost'') None
     (Text (js ''   ''))) = [] \<and>
   statuses (solveCell (\<lambda>t. t) v8 (\<lambda>r. Inl (js ''Failed to fetch'')) (js ''localhost'') None
     (Text (js ''   ''))) =
     [(js ''Selected cell is empty. Please select a cell with a question.'', js ''error'')]"
proof -
  have h: "list_all isWhiteSpace (js ''   '')"
    by (simp add: js_def isWhiteSpace_def)
  show ?thesis
    using solveCell_blank_question [OF h] by simp
qed

text \<open>
  Two successful responses. In the first the \<open>analysis\<close> field is present and empty:
  the field is passed over, and \<open>formatted_answer\<close> is written to the cell. In the
  second the \<open>analysis\<close> field is the number 42: it is handed to \<open>stripHtmlTags\<close>,
  whose first \<open>html.replace\<close> throws; nothing is written and the message of that
  error is shown.
\<close>

theorem analysis_present_counterexample:
  "property (JObject [(js ''success'', JBool True), (js ''analysis'', JString []),
              (js ''formatted_answer'', JString (js ''4''))]) (js ''analysis'') =
     Some (JString []) \<and>
   rawAnswer (JObject [(js ''success'', JBool True), (js ''analysis'', JString []),
              (js ''formatted_answer'', JString (js ''4''))]) = JString (js ''4'') \<and>
   map cellValues (outputs (solveCell (\<lambda>t. t) v8
     (\<lambda>r. Inr \<lparr>status = 200, statusText = js ''OK'',
               json = Inr (JObject [(js ''success'', JBool True), (js ''analysis'', JString []),
                             (js ''formatted_answer'', JString (js ''4''))])\<rparr>)
     (js ''localhost'') None (Text (js ''2+2'')))) = [js ''4''] \<and>
   property (JObject [(js ''success'', JBool True),
              (js ''analysis'', JNumber False (js ''42''))]) (js ''analysis'') =
     Some (JNumber False (js ''42'')) \<and>
   outputs (solveCell (\<lambda>t. t) v8
     (\<lambda>r. Inr \<lparr>status = 200, statusText = js ''OK'',
               json = Inr (JObject [(js ''success'', JBool True),
                             (js ''analysis'', JNumber False (js ''42''))])\<rparr>)
     (js ''localhost'') None (Text (js ''2+2''))) = [] \<and>
   statuses (solveCell (\<lambda>t. t) v8
     (\<lambda>r. Inr \<lparr>status = 200, statusText = js ''OK'',
               json = Inr (JObject [(js ''success'', JBool True),
                             (js ''analysis'', JNumber False (js ''42''))])\<rparr>)
     (js ''localhost'') None (Text (js ''2+2''))) =
     [(js ''Computing solution...'', js ''loading''),
      (js ''html.replace is not a function'', js ''error'')]"
  by code_simp

text \<open>
  Claim C2, amended. For a response with a 2xx status whose body is a JSON value other
  than \<open>null\<close> with a truthy \<open>success\<close> (\<open>true\<close> among them), the answer is the
  \<open>analysis\<close> field when that is present and truthy (for a string: not empty),
  otherwise the \<open>formatted_answer\<close> field when that is present and truthy, otherwise
  the literal \<open>No answer returned\<close>. When the answer is a string, \<open>solveCell\<close>
  succeeds: it writes the normalized answer to the output cell and shows the success
  message. When the answer is no string (a number, \<open>true\<close>, an array, an object),
  nothing is written, and the message of the type error thrown in \<open>stripHtmlTags\<close> is
  shown.
\<close>

theorem solveCell_success_answer:
  assumes "\<not> falsy question" and "trim (toString question) \<noteq> []"
    and "fetch (buildRequest hostname (orElse stored []) question) = Inr response"
    and "ok response" and "json response = Inr result" and "result \<noteq> JNull"
    and "truthyProperty (property result (js ''success''))"
  shows "(\<forall>a. property result (js ''analysis'') = Some a \<and> truthyValue a \<longrightarrow>
            rawAnswer result = a) \<and>
         (\<not> truthyProperty (property result (js ''analysis'')) \<longrightarrow>
            (\<forall>f. property result (js ''formatted_answer'') = Some f \<and> truthyValue f \<longrightarrow>
               rawAnswer result = f) \<and>
            (\<not> truthyProperty (property result (js ''formatted_answer'')) \<longrightarrow>
               rawAnswer result = JString (js ''No answer returned''))) \<and>
         (\<forall>html. rawAnswer result = JString html \<longrightarrow>
            outputs (solveCell decode engine fetch hostname stored question) =
              [\<lparr>cellValues = stripHtmlTags decode html, fontColor = js ''#166534'',
                wrapText = True, verticalAlignment = js ''Top''\<rparr>] \<and>
            statuses (solveCell decode engine fetch hostname stored question) =
              [(js ''Computing solution...'', js ''loading''),
               (js ''Solution computed successfully!'', js ''success'')]) \<and>
         ((\<forall>html. rawAnswer result \<noteq> JString html) \<longrightarrow>
            outputs (solveCell decode engine fetch hostname stored question) = [] \<and>
            statuses (solveCell decode engine fetch hostname stored question) =
              [(js ''Computing solution...'', js ''loading''),
               (orElse (Some (engine (NotAFunction (js ''html.replace''))))
                  (js ''Failed to compute solution. Please contact support@solonai.com''),
                js ''error'')])"
proof -
  have answer:
    "(\<forall>a. property result (js ''analysis'') = Some a \<and> truthyValue a \<longrightarrow>
            rawAnswer result = a) \<and>
         (\<not> truthyProperty (property result (js ''analysis'')) \<longrightarrow>
            (\<forall>f. property result (js ''formatted_answer'') = Some f \<and> truthyValue f \<longrightarrow>
               rawAnswer result = f) \<and>
            (\<not> truthyProperty (property result (js ''formatted_answer'')) \<longrightarrow>
               rawAnswer result = JString (js ''No answer returned'')))"
    by (auto simp add: rawAnswer_def orProperty_def orLiteral_def truthyProperty_def
          split: option.splits)
  have written: "outputs (solveCell decode engine fetch hostname stored question) =
      (case rawAnswer result of
         JString html \<Rightarrow>
           [\<lparr>cellValues = stripHtmlTags decode html, fontColor = js ''#166534'',
             wrapText = True, verticalAlignment = js ''Top''\<rparr>]
       | _ \<Rightarrow> [])"
    using assms by (simp add: solveCell_outputs)
  have shown: "statuses (solveCell decode engine fetch hostname stored question) =
           [(js ''Computing solution...'', js ''loading''),
            (case rawAnswer result of
               JString html \<Rightarrow> (js ''Solution computed successfully!'', js ''success'')
             | _ \<Rightarrow>
                 (orElse (Some (engine (NotAFunction (js ''html.replace''))))
                    (js ''Failed to compute solution. Please contact support@solonai.com''),
                  js ''error''))]"
    using assms by (rule statuses_success)
  have "\<forall>html. rawAnswer result = JString html \<longrightarrow>
            outputs (solveCell decode engine fetch hostname stored question) =
              [\<lparr>cellValues = stripHtmlTags decode html, fontColor = js ''#166534'',
                wrapText = True, verticalAlignment = js ''Top''\<rparr>] \<and>
            statuses (solveCell decode engine fetch hostname stored question) =
              [(js ''Computing solution...'', js ''loading''),
               (js ''Solution computed successfully!'', js ''success'')]"
    by (simp add: written shown)
  moreover have "(\<forall>html. rawAnswer result \<noteq> JString html) \<longrightarrow>
            outputs (solveCell decode engine fetch hostname stored question) = [] \<and>
            statuses (solveCell decode engine fetch hostname stored question) =
              [(js ''Computing solution...'', js ''loading''),
               (orElse (Some (engine (NotAFunction (js ''html.replace''))))
                  (js ''Failed to compute solution. Please contact support@solonai.com''),
                js ''error'')]"
    by (cases "rawAnswer result") (simp_all add: written shown)
  ultimately show ?thesis using answer by blast
qed

theorem solveCell_success_answer_witness:
  "outputs (solveCell (\<lambda>t. t) v8
     (\<lambda>r. Inr \<lparr>status = 200, statusText = js ''OK'',
               json = Inr (JObject [(js ''success'', JBool True),
                             (js ''analysis'', JString (js ''<p>Hi</p>'')),
                             (js ''formatted_answer'', JString (js ''4''))])\<rparr>)
     (js ''localhost'') None (Text (js ''2+2''))) =
     [\<lparr>cellValues = stripHtmlTags (\<lambda>t. t) (js ''<p>Hi</p>''),
       fontColor = js ''#166534'', wrapText = True, verticalAlignment = js ''Top''\<rparr>]"
proof -
  let ?result = "JObject [(js ''success'', JBool True),
                   (js ''analysis'', JString (js ''<p>Hi</p>'')),
                   (js ''formatted_answer'', JString (js ''4''))]"
  let ?response = "\<lparr>status = 200, statusText = js ''OK'', json = Inr ?result\<rparr>"
  have a: "\<not> falsy (Text (js ''2+2''))" by (simp add: js_def)
  have b: "trim (toString (Text (js ''2+2''))) \<noteq> []"
    by (simp add: trim_def js_def isWhiteSpace_def)
  have c: "ok ?response" by (simp add: ok_def)
  have d: "truthyProperty (property ?result (js ''success''))" by code_simp
  have e: "property ?result (js ''analysis'') = Some (JString (js ''<p>Hi</p>''))"
    by code_simp
  have f: "truthyValue (JString (js ''<p>Hi</p>''))" by (simp add: js_def)
  have "rawAnswer ?result = JString (js ''<p>Hi</p>'')"
    using solveCell_success_answer [where decode = "\<lambda>t. t" and engine = v8
        and hostname = "js ''localhost''" and stored = None and question = "Text (js ''2+2'')"
        and fetch = "\<lambda>r. Inr ?response" and response = ?response and result = ?result,
        OF a b _ c _ _ d] e f
    by simp
  then show ?thesis
    using solveCell_success_answer [where decode = "\<lambda>t. t" and engine = v8
        and hostname = "js ''localhost''" and stored = None and question = "Text (js ''2+2'')"
        and fetch = "\<lambda>r. Inr ?response" and response = ?response and result = ?result,
        OF a b _ c _ _ d]
    by simp
qed

text \<open>
  Three responses with status 400. The body of the first is not JSON: \<open>response.json()\<close>
  throws, the error reaches the handler of \<open>solveCell\<close>, and the message shown is the
  one of that error, not \<open>Invalid question format\<close>. The body of the second is
  \<open>null\<close>, which is JSON: reading its \<open>error\<close> throws, and the message of that type
  error is shown. The body of the third has an \<open>error\<close> field that is present and
  empty: the message is \<open>Invalid question format\<close>, not the field.
\<close>

theorem unparseable_body_counterexample:
  "statuses (solveCell (\<lambda>t. t) v8
     (\<lambda>r. Inr \<lparr>status = 400, statusText = js ''Bad Request'',
               json = Inl (js ''Unexpected end of JSON input'')\<rparr>)
     (js ''localhost'') None (Text (js ''2+2''))) =
     [(js ''Computing solution...'', js ''loading''),
      (js ''Unexpected end of JSON input'', js ''error'')] \<and>
   js ''Unexpected end of JSON input'' \<noteq> js ''Invalid question format'' \<and>
   statuses (solveCell (\<lambda>t. t) v8
     (\<lambda>r. Inr \<lparr>status = 400, statusText = js ''Bad Request'', json = Inr JNull\<rparr>)
     (js ''localhost'') None (Text (js ''2+2''))) =
     [(js ''Computing solution...'', js ''loading''),
      (js ''Cannot read properties of null (reading '' @ [0x27] @ js ''error'' @ [0x27]
         @ js '')'', js ''error'')] \<and>
   property (JObject [(js ''error'', JString [])]) (js ''error'') = Some (JString []) \<and>
   statuses (solveCell (\<lambda>t. t) v8
     (\<lambda>r. Inr \<lparr>status = 400, statusText = js ''Bad Request'',
               json = Inr (JObject [(js ''error'', JString [])])\<rparr>)
     (js ''localhost'') None (Text (js ''2+2''))) =
     [(js ''Computing solution...'', js ''loading''),
      (js ''Invalid question format'', js ''error'')]"
  by code_simp

text \<open>
  Claim C3, amended. For a response with status 400 nothing is written and an error is
  shown. When the body is a JSON value other than \<open>null\<close>, the message is its \<open>error\<close>
  field if that is a string and not empty, \<open>Invalid question format\<close> if the field is
  absent or falsy (\<open>null\<close>, \<open>false\<close>, zero, the empty string), and the conversion of
  the field to a string if it is another truthy value (the message of the type error if
  it has none, the general failure message if the conversion is empty). When the body is
  \<open>null\<close> or not JSON, the message is the one of the error thrown, by the read of
  \<open>error\<close> or by \<open>response.json()\<close> (the general failure message if that message
  is empty).
\<close>

theorem solveCell_bad_request:
  assumes "\<not> falsy question" and "trim (toString question) \<noteq> []"
    and "fetch (buildRequest hostname (orElse stored []) question) = Inr response"
    and "status response = 400"
  shows "outputs (solveCell decode engine fetch hostname stored question) = [] \<and>
         (\<exists>message.
            statuses (solveCell decode engine fetch hostname stored question) =
              [(js ''Computing solution...'', js ''loading''), (message, js ''error'')] \<and>
            (\<forall>failure. json response = Inl failure \<longrightarrow>
               message = orElse (Some failure)
                 (js ''Failed to compute solution. Please contact support@solonai.com'')) \<and>
            (json response = Inr JNull \<longrightarrow>
               message = orElse (Some (engine (ReadOfNull (js ''error''))))
                 (js ''Failed to compute solution. Please contact support@solonai.com'')) \<and>
            (\<forall>errorData. json response = Inr errorData \<and> errorData \<noteq> JNull \<longrightarrow>
               (\<not> truthyProperty (property errorData (js ''error'')) \<longrightarrow>
                  message = js ''Invalid question format'') \<and>
               (\<forall>m. property errorData (js ''error'') = Some (JString m) \<and> m \<noteq> [] \<longrightarrow>
                  message = m) \<and>
               (\<forall>v. property errorData (js ''error'') = Some v \<and> truthyValue v \<longrightarrow>
                  message =
                    orElse (Some (case ToString v of
                                    Some m \<Rightarrow> m
                                  | None \<Rightarrow> engine NoPrimitive))
                      (js ''Failed to compute solution. Please contact support@solonai.com''))))"
proof -
  have iqf: "js ''Invalid question format'' \<noteq> []" by (simp add: js_def)
  have out: "outputs (solveCell decode engine fetch hostname stored question) = []"
    using assms by (simp add: solveCell_outputs ok_def)
  let ?message = "orElse (Some
               (case json response of
                  Inl failure \<Rightarrow> failure
                | Inr errorData \<Rightarrow>
                    (case get errorData (js ''error'') of
                       Inl e \<Rightarrow> engine e
                     | Inr error \<Rightarrow>
                         (case ToString (orLiteral error (js ''Invalid question format'')) of
                            None \<Rightarrow> engine NoPrimitive
                          | Some message \<Rightarrow> message))))
               (js ''Failed to compute solution. Please contact support@solonai.com'')"
  have shown: "statuses (solveCell decode engine fetch hostname stored question) =
           [(js ''Computing solution...'', js ''loading''), (?message, js ''error'')]"
    using assms by (rule statuses_bad_request)
  have a: "\<forall>failure. json response = Inl failure \<longrightarrow>
               ?message = orElse (Some failure)
                 (js ''Failed to compute solution. Please contact support@solonai.com'')"
    by simp
  have b: "json response = Inr JNull \<longrightarrow>
               ?message = orElse (Some (engine (ReadOfNull (js ''error''))))
                 (js ''Failed to compute solution. Please contact support@solonai.com'')"
    by simp
  have c: "\<forall>errorData. json response = Inr errorData \<and> errorData \<noteq> JNull \<longrightarrow>
               (\<not> truthyProperty (property errorData (js ''error'')) \<longrightarrow>
                  ?message = js ''Invalid question format'') \<and>
               (\<forall>m. property errorData (js ''error'') = Some (JString m) \<and> m \<noteq> [] \<longrightarrow>
                  ?message = m) \<and>
               (\<forall>v. property errorData (js ''error'') = Some v \<and> truthyValue v \<longrightarrow>
                  ?message =
                    orElse (Some (case ToString v of
                                    Some m \<Rightarrow> m
                                  | None \<Rightarrow> engine NoPrimitive))
                      (js ''Failed to compute solution. Please contact support@solonai.com''))"
    using iqf
    by (auto simp add: get_property orLiteral_def truthyProperty_def orElse_def
          split: option.splits)
  show ?thesis using out shown a b c by blast
qed

theorem solveCell_bad_request_witness:
  "statuses (solveCell (\<lambda>t. t) v8
     (\<lambda>r. Inr \<lparr>status = 400, statusText = js ''Bad Request'',
               json = Inr (JObject [(js ''error'', JString (js ''bad format''))])\<rparr>)
     (js ''localhost'') None (Text (js ''2+2''))) =
     [(js ''Computing solution...'', js ''loading''), (js ''bad format'', js ''error'')]"
proof -
  let ?errorData = "JObject [(js ''error'', JString (js ''bad format''))]"
  let ?response = "\<lparr>status = 400, statusText = js ''Bad Request'', json = Inr ?errorData\<rparr>"
  have a: "\<not> falsy (Text (js ''2+2''))" by (simp add: js_def)
  have b: "trim (toString (Text (js ''2+2''))) \<noteq> []"
    by (simp add: trim_def js_def isWhiteSpace_def)
  have d: "js ''bad format'' \<noteq> []" by (simp add: js_def)
  have e: "property ?errorData (js ''error'') = Some (JString (js ''bad format''))"
    by code_simp
  obtain message where
    m: "statuses (solveCell (\<lambda>t. t) v8 (\<lambda>r. Inr ?response) (js ''localhost'') None
          (Text (js ''2+2''))) =
        [(js ''Computing solution...'', js ''loading''), (message, js ''error'')]"
    and "\<forall>errorData. json ?response = Inr errorData \<and> errorData \<noteq> JNull \<longrightarrow>
           (\<forall>m. property errorData (js ''error'') = Some (JString m) \<and> m \<noteq> [] \<longrightarrow>
              message = m)"
    using solveCell_bad_request [where decode = "\<lambda>t. t" and engine = v8
        and hostname = "js ''localhost''" and stored = None and question = "Text (js ''2+2'')"
        and fetch = "\<lambda>r. Inr ?response" and response = ?response, OF a b]
    by auto
  then have "message = js ''bad format''" using d e by auto
  then show ?thesis using m by simp
qed

text \<open>
  Claim C8. Every request that \<open>solveCell\<close> sends carries the header
  \<open>Content-Type: application/json\<close>, and the header \<open>Authorization: Bearer\<close> with the
  stored key exactly when that key is not empty. For a question string that is not empty
  after trimming, exactly one request is sent, a POST whose body holds that very string,
  untrimmed.
\<close>

theorem solveCell_request:
  "(\<forall>r \<in> set (fetched (solveCell decode engine fetch hostname stored question)).
      map_of (headers r) (js ''Content-Type'') = Some (js ''application/json'') \<and>
      map_of (headers r) (js ''Authorization'') =
        (if orElse stored [] = [] then None else Some (js ''Bearer '' @ orElse stored []))) \<and>
   (trim q \<noteq> [] \<longrightarrow>
      fetched (solveCell decode engine fetch hostname stored (Text q)) =
        [\<lparr>url = API_URL hostname, httpMethod = js ''POST'',
          headers = buildHeaders (orElse stored []),
          body = [(js ''question'', q)]\<rparr>])"
proof -
  have "trim [] = []" by (simp add: trim_def)
  then have "trim q \<noteq> [] \<Longrightarrow> q \<noteq> []" by auto
  then show ?thesis
    using header_names_distinct
    by (auto simp add: solveCell_fetched buildRequest_def buildHeaders_def)
qed

theorem solveCell_request_witness:
  "fetched (solveCell (\<lambda>t. t) v8 (\<lambda>r. Inl (js ''Failed to fetch'')) (js ''localhost'')
     (Some (js ''k1'')) (Text (js '' 2+2 ''))) =
     [\<lparr>url = js ''http://localhost:8000/nlp-analysis'', httpMethod = js ''POST'',
       headers = [(js ''Content-Type'', js ''application/json''),
                  (js ''Authorization'', js ''Bearer k1'')],
       body = [(js ''question'', js '' 2+2 '')]\<rparr>]"
proof -
  have h: "trim (js '' 2+2 '') \<noteq> []"
    by (simp add: trim_def js_def isWhiteSpace_def)
  show ?thesis
    using h solveCell_request [of "\<lambda>t. t" v8 "\<lambda>r. Inl (js ''Failed to fetch'')"
        "js ''localhost''" "Some (js ''k1'')" "Text (js '' 2+2 '')" "js '' 2+2 ''"]
    by (simp add: API_URL_def LOCAL_DEV_URL_def buildHeaders_def orElse_def js_def)
qed

text \<open>
  Claim C9. On every path of \<open>solveCell\<close> that fails (the selected cell is empty or
  blank, the request fails in transport, the status is not 2xx, the body of a 2xx
  response is not JSON, is \<open>null\<close>, has a falsy \<open>success\<close>, or has an answer that is
  no string) no cell is written and no format is set.
\<close>

theorem solveCell_failure_writes_nothing:
  assumes "falsy question \<or> trim (toString question) = [] \<or>
           (\<exists>failure. fetch (buildRequest hostname (orElse stored []) question) = Inl failure) \<or>
           (\<exists>response. fetch (buildRequest hostname (orElse stored []) question) = Inr response \<and>
              (\<not> ok response \<or> (\<exists>failure. json response = Inl failure) \<or>
               (\<exists>result. json response = Inr result \<and>
                  (result = JNull \<or> \<not> truthyProperty (property result (js ''success'')) \<or>
                   (\<forall>html. rawAnswer result \<noteq> JString html)))))"
  shows "outputs (solveCell decode engine fetch hostname stored question) = []"
  using assms by (auto simp add: solveCell_outputs split: jsonValue.split)

theorem solveCell_failure_writes_nothing_witness:
  "outputs (solveCell (\<lambda>t. t) v8
     (\<lambda>r. Inr \<lparr>status = 200, statusText = js ''OK'',
               json = Inr (JObject [(js ''success'', JBool False),
                             (js ''analysis'', JString (js ''<p>4</p>'')),
                             (js ''error'', JString (js ''oops''))])\<rparr>)
     (js ''localhost'') None (Text (js ''2+2''))) = []"
proof -
  let ?result = "JObject [(js ''success'', JBool False),
                   (js ''analysis'', JString (js ''<p>4</p>'')),
                   (js ''error'', JString (js ''oops''))]"
  let ?response = "\<lparr>status = 200, statusText = js ''OK'', json = Inr ?result\<rparr>"
  have "\<not> truthyProperty (property ?result (js ''success''))" by code_simp
  then have h: "\<exists>response. (\<lambda>r. Inr ?response)
             (buildRequest (js ''localhost'') (orElse None []) (Text (js ''2+2''))) = Inr response \<and>
              (\<not> ok response \<or> (\<exists>failure. json response = Inl failure) \<or>
               (\<exists>result. json response = Inr result \<and>
                  (result = JNull \<or> \<not> truthyProperty (property result (js ''success'')) \<or>
                   (\<forall>html. rawAnswer result \<noteq> JString html))))"
    by simp
  show ?thesis
    by (rule solveCell_failure_writes_nothing) (use h in blast)
qed

section \<open>The matcher on the patterns of the clean-up\<close>

text \<open>
  What the backtracking matcher does on the three patterns behind the decoding, and from
  that the recursion equations of the three replacements: the disclaimer marker is a
  literal, the other two are runs of one character.
\<close>

lemma run_dropWhile: "drop (run i c s) s = dropWhile (accepts i c) s"
  by (simp add: run_def dropWhile_eq_drop [symmetric])

lemma matchItems_literal:
  "matchItems False (map (\<lambda>c. One (Lit c)) w) s =
     (if prefix w s then Some (map (\<lambda>c. [c]) w) else None)"
proof (induction w arbitrary: s)
  case Nil
  show ?case by simp
next
  case (Cons a w)
  show ?case
  proof (cases s)
    case Nil
    then show ?thesis by (simp add: run_def)
  next
    case (Cons x xs)
    then show ?thesis
      using Cons.IH [of xs] by (simp add: run_def canonicalize_def)
  qed
qed

lemma lit_js: "lit w = map (\<lambda>c. One (Lit c)) (js w)"
  by (simp add: lit_def js_def)

lemma matchHere_disclaimer:
  "matchHere disclaimerRe s =
     (if prefix disclaimer s then Some (map (\<lambda>c. [c]) disclaimer) else None)"
  by (simp add: matchHere_def disclaimerRe_def lit_js matchItems_literal disclaimer_def)

lemma concat_singletons: "concat (map (\<lambda>c. [c]) w) = w"
  by (induction w) simp_all

lemma length_disclaimer: "length disclaimer = 15"
  by (simp add: disclaimer_def js_def)

lemma captured_disclaimer: "captured disclaimerRe (map (\<lambda>c. [c]) disclaimer) = disclaimer"
  by (simp add: captured_def disclaimerRe_def lit_js concat_singletons disclaimer_def [symmetric])

lemma separateDisclaimer_Nil: "separateDisclaimer [] = []"
  by (simp add: separateDisclaimer_def matchHere_disclaimer length_disclaimer [symmetric] disclaimer_def js_def)

lemma separateDisclaimer_Cons:
  "separateDisclaimer (c # s) =
     (if prefix disclaimer (c # s)
      then LF # disclaimer @ separateDisclaimer (drop 14 s)
      else c # separateDisclaimer s)"
  by (simp add: separateDisclaimer_def matchHere_disclaimer captured_disclaimer
        concat_singletons length_disclaimer)

lemma accepts_Lit: "accepts False (Lit a) = (\<lambda>x. x = a)"
  by (simp add: fun_eq_iff canonicalize_def)

lemma matchItems_Plus:
  "matchItems i [Plus c] s =
     (if 1 \<le> run i c s then Some [take (run i c s) s] else None)"
  by simp

lemma matchHere_spaces:
  "matchHere spacesRe s =
     (if 1 \<le> run False (Lit SP) s then Some [take (run False (Lit SP) s) s] else None)"
  unfolding matchHere_def spacesRe_def regex.sel append_Nil2 by (rule matchItems_Plus)

lemma run_Cons: "run i c (x # s) = (if accepts i c x then Suc (run i c s) else 0)"
  by (simp add: run_def)

lemma run_le: "run i c s \<le> length s"
  by (simp add: run_def length_takeWhile_le)

lemma collapseSpaces_Nil: "collapseSpaces [] = []"
  by (simp add: collapseSpaces_def matchHere_spaces run_def)

lemma matchItems_One:
  "matchItems i (One c # r) s =
     (case s of
        [] \<Rightarrow> None
      | x # xs \<Rightarrow>
          if accepts i c x
          then (case matchItems i r xs of Some ps \<Rightarrow> Some ([x] # ps) | None \<Rightarrow> None)
          else None)"
  by (cases s) (simp_all add: run_def split: option.split)

lemma collapseSpaces_Cons:
  "collapseSpaces (c # s) =
     (if c = SP then SP # collapseSpaces (dropWhile (\<lambda>x. x = SP) s)
      else c # collapseSpaces s)"
proof (cases "c = SP")
  case True
  have "drop (run False (Lit SP) s) s = dropWhile (\<lambda>x. x = SP) s"
    using run_dropWhile [of False "Lit SP" s] by (simp add: accepts_Lit)
  then show ?thesis
    using True run_le [of False "Lit SP" s]
    by (simp add: collapseSpaces_def matchHere_spaces run_Cons accepts_Lit min_absorb2)
next
  case False
  then show ?thesis
    by (simp add: collapseSpaces_def matchHere_spaces run_Cons accepts_Lit)
qed

lemma matchHere_newlines:
  "matchHere newlinesRe (c # s) =
     (if c = LF \<and> 1 \<le> run False (Lit LF) s
      then Some [[c], take (run False (Lit LF) s) s] else None)"
  by (simp add: matchHere_def newlinesRe_def matchItems_One matchItems_Plus accepts_Lit
        del: matchItems.simps)

lemma matchHere_newlines_Nil: "matchHere newlinesRe [] = None"
  by (simp add: matchHere_def newlinesRe_def run_def)

lemma collapseNewlines_Nil: "collapseNewlines [] = []"
  by (simp add: collapseNewlines_def matchHere_newlines_Nil)

lemma collapseNewlines_Cons:
  "collapseNewlines (c # s) =
     (if c = LF \<and> (\<exists>r. s = LF # r)
      then LF # collapseNewlines (dropWhile (\<lambda>x. x = LF) s)
      else c # collapseNewlines s)"
proof (cases "c = LF \<and> (\<exists>r. s = LF # r)")
  case True
  have "drop (run False (Lit LF) s) s = dropWhile (\<lambda>x. x = LF) s"
    using run_dropWhile [of False "Lit LF" s] by (simp add: accepts_Lit)
  moreover have "1 \<le> run False (Lit LF) s"
    using True by (auto simp add: run_Cons accepts_Lit)
  ultimately show ?thesis
    using True run_le [of False "Lit LF" s]
    by (simp add: collapseNewlines_def matchHere_newlines min_absorb2)
next
  case False
  then have "\<not> (c = LF \<and> 1 \<le> run False (Lit LF) s)"
    by (cases s) (auto simp add: run_Cons accepts_Lit run_def)
  then have "matchHere newlinesRe (c # s) = None"
    by (simp add: matchHere_newlines)
  then show ?thesis
    using False by (auto simp add: collapseNewlines_def)
qed

section \<open>Spaces, trimming and lines\<close>

text \<open>
  Collapsing the spaces leaves no two of them side by side, and no later step brings two
  together. \<open>split\<close> and \<open>join\<close> are inverse to each other on lines without line feeds.
\<close>

lemma doubleSpace_Cons:
  "doubleSpace (c # s) \<longleftrightarrow> (c = SP \<and> (\<exists>r. s = SP # r)) \<or> doubleSpace s"
  by (cases s) auto

lemma doubleSpace_append:
  "doubleSpace (a @ b) \<longleftrightarrow>
     doubleSpace a \<or> doubleSpace b \<or> (a \<noteq> [] \<and> b \<noteq> [] \<and> last a = SP \<and> hd b = SP)"
proof (induction a)
  case Nil
  show ?case by simp
next
  case (Cons x a)
  show ?case
  proof (cases a)
    case Nil
    then show ?thesis by (cases b) (auto simp add: doubleSpace_Cons)
  next
    case (Cons y a')
    then show ?thesis using Cons.IH by (auto simp add: doubleSpace_Cons)
  qed
qed

lemma doubleSpace_rev: "doubleSpace (rev s) = doubleSpace s"
proof (induction s)
  case Nil
  show ?case by simp
next
  case (Cons x s)
  show ?case
    using Cons.IH
    by (cases s) (auto simp add: doubleSpace_append doubleSpace_Cons hd_rev last_rev)
qed

lemma doubleSpace_dropWhile: "doubleSpace (dropWhile P s) \<Longrightarrow> doubleSpace s"
  by (induction s) (auto simp add: doubleSpace_Cons split: if_splits)

lemma doubleSpace_trim: "doubleSpace (trim s) \<Longrightarrow> doubleSpace s"
  unfolding trim_def
  using doubleSpace_dropWhile doubleSpace_rev by blast

lemma trim_Nil: "trim [] = []"
  by (simp add: trim_def)

lemma trim_ends:
  assumes "trim s \<noteq> []"
  shows "\<not> isWhiteSpace (hd (trim s)) \<and> \<not> isWhiteSpace (last (trim s))"
proof -
  let ?d = "dropWhile isWhiteSpace s"
  let ?e = "dropWhile isWhiteSpace (rev ?d)"
  have e: "?e \<noteq> []" using assms by (simp add: trim_def)
  have d: "?d \<noteq> []"
  proof
    assume a: "?d = []"
    have "?e = []" unfolding a by simp
    with e show False by blast
  qed
  have "\<not> isWhiteSpace (hd ?e)" using e by (rule hd_dropWhile)
  then have last: "\<not> isWhiteSpace (last (trim s))"
    using e by (simp add: trim_def last_rev)
  obtain p where p: "rev ?d = p @ ?e"
    by (metis takeWhile_dropWhile_id)
  have "last ?e = last (rev ?d)" using p e by (metis last_appendR)
  also have "\<dots> = hd ?d" using d by (simp add: last_rev)
  finally have "hd (trim s) = hd ?d" using e by (simp add: trim_def hd_rev)
  moreover have "\<not> isWhiteSpace (hd ?d)" using d by (rule hd_dropWhile)
  ultimately show ?thesis using last by simp
qed

lemma trim_id:
  assumes "s \<noteq> []" and "\<not> isWhiteSpace (hd s)" and "\<not> isWhiteSpace (last s)"
  shows "trim s = s"
proof -
  have "dropWhile isWhiteSpace s = s"
    using assms(1,2) by (cases s) simp_all
  moreover have "dropWhile isWhiteSpace (rev s) = rev s"
    using assms(1,3) by (cases "rev s") (simp_all add: hd_rev [symmetric])
  ultimately show ?thesis by (simp add: trim_def)
qed

lemma set_trim: "set (trim s) \<subseteq> set s"
  unfolding trim_def by (metis set_dropWhileD set_rev subsetI)

lemma collapseSpaces_no_doubleSpace: "\<not> doubleSpace (collapseSpaces s)"
proof (induction s rule: length_induct)
  case (1 s)
  show ?case
  proof (cases s)
    case Nil
    then show ?thesis by (simp add: collapseSpaces_Nil)
  next
    case (Cons c s')
    show ?thesis
    proof (cases "c = SP")
      case True
      define d where "d = dropWhile (\<lambda>x. x = SP) s'"
      have "length d < length s"
        using Cons length_dropWhile_le [of "\<lambda>x. x = SP" s'] by (simp add: d_def)
      then have ih: "\<not> doubleSpace (collapseSpaces d)" using 1 by blast
      have hd: "d \<noteq> [] \<Longrightarrow> hd d \<noteq> SP"
        using hd_dropWhile [of "\<lambda>x. x = SP" s'] by (simp add: d_def)
      have "\<not> (\<exists>r. collapseSpaces d = SP # r)"
      proof (cases d)
        case Nil
        then show ?thesis by (simp add: collapseSpaces_Nil)
      next
        case (Cons x d')
        then have "x \<noteq> SP" using hd by simp
        then show ?thesis using Cons by (simp add: collapseSpaces_Cons)
      qed
      then show ?thesis
        using True Cons ih by (simp add: collapseSpaces_Cons doubleSpace_Cons d_def)
    next
      case False
      have "\<not> doubleSpace (collapseSpaces s')" using 1 Cons by simp
      then show ?thesis
        using False Cons by (simp add: collapseSpaces_Cons doubleSpace_Cons)
    qed
  qed
qed

lemma collapseNewlines_head: "\<exists>r. collapseNewlines (c # s) = c # r"
  by (simp add: collapseNewlines_Cons)

lemma collapseNewlines_doubleSpace:
  "doubleSpace (collapseNewlines s) \<Longrightarrow> doubleSpace s"
proof (induction s rule: length_induct)
  case (1 s)
  show ?case
  proof (cases s)
    case Nil
    then show ?thesis using 1(2) by (simp add: collapseNewlines_Nil)
  next
    case (Cons c s')
    show ?thesis
    proof (cases "c = LF \<and> (\<exists>r. s' = LF # r)")
      case True
      let ?d = "dropWhile (\<lambda>x. x = LF) s'"
      have "length ?d < length s"
        using Cons length_dropWhile_le [of "\<lambda>x. x = LF" s'] by simp
      then have ih: "doubleSpace (collapseNewlines ?d) \<Longrightarrow> doubleSpace ?d"
        using 1(1) by blast
      have "doubleSpace (LF # collapseNewlines ?d)"
        using 1(2) True Cons by (simp add: collapseNewlines_Cons)
      then have "doubleSpace (collapseNewlines ?d)"
        by (simp add: doubleSpace_Cons LF_def SP_def)
      then have "doubleSpace s'" using ih doubleSpace_dropWhile by blast
      then show ?thesis using Cons by (simp add: doubleSpace_Cons)
    next
      case False
      then have eq: "collapseNewlines s = c # collapseNewlines s'"
        using Cons by (auto simp add: collapseNewlines_Cons)
      have ih: "doubleSpace (collapseNewlines s') \<Longrightarrow> doubleSpace s'"
        using 1(1) Cons by simp
      have "(\<exists>r. collapseNewlines s' = SP # r) \<Longrightarrow> (\<exists>r. s' = SP # r)"
        by (cases s') (simp add: collapseNewlines_Nil, metis collapseNewlines_head list.inject)
      then show ?thesis
        using 1(2) eq ih Cons by (auto simp add: doubleSpace_Cons)
    qed
  qed
qed

lemma split_not_Nil: "split s \<noteq> []"
  by (induction s) (auto split: list.split)

lemma split_Cons:
  "split (c # s) = (if c = LF then [] # split s else (c # hd (split s)) # tl (split s))"
  using split_not_Nil [of s] by (cases "split s") simp_all

lemma join_Cons: "ls \<noteq> [] \<Longrightarrow> join (l # ls) = l @ LF # join ls"
  by (cases ls) simp_all

lemma join_split: "join (split s) = s"
proof (induction s)
  case Nil
  show ?case by simp
next
  case (Cons c s)
  obtain l ls where sp: "split s = l # ls"
    using split_not_Nil [of s] by (cases "split s") auto
  show ?case
  proof (cases "c = LF")
    case True
    then show ?thesis using Cons sp by (simp add: join_Cons)
  next
    case False
    then show ?thesis using Cons sp by (cases ls) simp_all
  qed
qed

lemma doubleSpace_join: "doubleSpace (join ls) \<longleftrightarrow> (\<exists>l\<in>set ls. doubleSpace l)"
proof (induction ls rule: join.induct)
  case 1
  show ?case by simp
next
  case (2 l)
  show ?case by simp
next
  case (3 l m ls)
  have "doubleSpace (l @ LF # join (m # ls)) \<longleftrightarrow> doubleSpace l \<or> doubleSpace (join (m # ls))"
    by (auto simp add: doubleSpace_append doubleSpace_Cons LF_def SP_def)
  then show ?case using 3 by simp
qed

lemma split_append: "split (a @ LF # b) = split a @ split b"
proof (induction a)
  case Nil
  show ?case by simp
next
  case (Cons c a)
  obtain l ls where sp: "split a = l # ls"
    using split_not_Nil [of a] by (cases "split a") auto
  show ?case using Cons sp by simp
qed

lemma split_no_LF: "l \<in> set (split s) \<Longrightarrow> LF \<notin> set l"
proof (induction s arbitrary: l)
  case Nil
  then show ?case by simp
next
  case (Cons c s)
  obtain m ms where sp: "split s = m # ms"
    using split_not_Nil [of s] by (cases "split s") auto
  show ?case
    using Cons sp by (cases "c = LF") auto
qed

lemma split_single: "LF \<notin> set l \<Longrightarrow> split l = [l]"
  by (induction l) auto

lemma split_join_concat: "ls \<noteq> [] \<Longrightarrow> split (join ls) = concat (map split ls)"
proof (induction ls rule: join.induct)
  case 1
  then show ?case by simp
next
  case (2 l)
  show ?case by simp
next
  case (3 l m ls)
  then show ?case by (simp add: split_append)
qed

lemma split_join:
  assumes "ls \<noteq> []" and "\<forall>l\<in>set ls. LF \<notin> set l"
  shows "split (join ls) = ls"
proof -
  have "concat (map split ls) = ls"
    using assms(2) by (induction ls) (simp_all add: split_single)
  then show ?thesis using assms(1) by (simp add: split_join_concat)
qed

lemma concat_split: "concat (split s) = filter (\<lambda>x. x \<noteq> LF) s"
proof (induction s)
  case Nil
  show ?case by simp
next
  case (Cons c s)
  obtain m ms where sp: "split s = m # ms"
    using split_not_Nil [of s] by (cases "split s") auto
  show ?case using Cons sp by simp
qed

lemma split_prepend:
  "LF \<notin> set w \<Longrightarrow> split (w @ z) = (w @ hd (split z)) # tl (split z)"
proof (induction w)
  case Nil
  show ?case using split_not_Nil [of z] by simp
next
  case (Cons c w)
  then show ?case by (auto simp add: split_Cons)
qed

lemma hd_join: "ls \<noteq> [] \<Longrightarrow> hd ls \<noteq> [] \<Longrightarrow> hd (join ls) = hd (hd ls)"
  by (induction ls rule: join.induct) simp_all

lemma join_eq_Nil: "join ls = [] \<longleftrightarrow> ls = [] \<or> ls = [[]]"
  by (induction ls rule: join.induct) simp_all

lemma last_join: "ls \<noteq> [] \<Longrightarrow> last ls \<noteq> [] \<Longrightarrow> last (join ls) = last (last ls)"
  by (induction ls rule: join.induct) (auto simp add: join_eq_Nil)

section \<open>The disclaimer step\<close>

text \<open>
  The marker holds no line feed, so the step works line by line; in one line it cuts
  before every marker it matches, and every line it starts begins with the marker.
\<close>

lemma disclaimer_chars:
  "LF \<notin> set disclaimer" "SP \<notin> set disclaimer" "disclaimer \<noteq> []"
  "\<not> isWhiteSpace (hd disclaimer)" "\<not> isWhiteSpace (last disclaimer)"
  "last disclaimer \<noteq> SP" "hd disclaimer \<noteq> SP" "hd disclaimer \<noteq> LF"
  "\<not> doubleSpace disclaimer"
  by (simp_all add: disclaimer_def js_def LF_def SP_def isWhiteSpace_def)

lemma prefix_disclaimer_drop:
  assumes "prefix disclaimer (c # s)"
  shows "c # s = disclaimer @ drop 14 s"
proof -
  obtain z where z: "c # s = disclaimer @ z"
    using assms by (auto simp add: prefix_def)
  then have "drop (length disclaimer) (c # s) = z" by simp
  then have "drop 14 s = z" by (simp add: length_disclaimer)
  then show ?thesis using z by simp
qed

lemma separateDisclaimer_marker:
  "separateDisclaimer (disclaimer @ r) = LF # disclaimer @ separateDisclaimer r"
proof -
  obtain c t where ct: "disclaimer @ r = c # t"
    using disclaimer_chars(3) by (cases "disclaimer @ r") auto
  have p: "prefix disclaimer (c # t)"
    using ct [symmetric] by simp
  then have "disclaimer @ r = disclaimer @ drop 14 t"
    using prefix_disclaimer_drop ct by simp
  then have "drop 14 t = r" by simp
  then show ?thesis
    using p by (simp add: ct separateDisclaimer_Cons)
qed

lemma separateDisclaimer_other:
  "\<not> prefix disclaimer (c # s) \<Longrightarrow> separateDisclaimer (c # s) = c # separateDisclaimer s"
  by (simp add: separateDisclaimer_Cons)

lemma separateDisclaimer_induct [case_names Nil Marker Other]:
  assumes "P []"
    and "\<And>r. P r \<Longrightarrow> P (disclaimer @ r)"
    and "\<And>c s. \<not> prefix disclaimer (c # s) \<Longrightarrow> P s \<Longrightarrow> P (c # s)"
  shows "P s"
proof (induction s rule: length_induct)
  case (1 s)
  show ?case
  proof (cases s)
    case Nil
    then show ?thesis using assms(1) by simp
  next
    case (Cons c s')
    show ?thesis
    proof (cases "prefix disclaimer (c # s')")
      case True
      then have eq: "s = disclaimer @ drop 14 s'"
        using Cons prefix_disclaimer_drop by simp
      have "length (drop 14 s') < length s" using Cons by simp
      then have "P (drop 14 s')" using 1 by blast
      then show ?thesis using assms(2) eq by metis
    next
      case False
      have "P s'" using 1 Cons by simp
      then show ?thesis using assms(3) False Cons by simp
    qed
  qed
qed

lemma separateDisclaimer_head_SP:
  assumes "separateDisclaimer s = SP # r"
  shows "\<exists>r'. s = SP # r'"
proof (cases s)
  case Nil
  then show ?thesis using assms by (simp add: separateDisclaimer_Nil)
next
  case (Cons c s')
  then show ?thesis
    using assms by (auto simp add: separateDisclaimer_Cons LF_def SP_def split: if_splits)
qed

lemma separateDisclaimer_doubleSpace:
  "doubleSpace (separateDisclaimer s) \<Longrightarrow> doubleSpace s"
proof (induction s rule: separateDisclaimer_induct)
  case Nil
  then show ?case by (simp add: separateDisclaimer_Nil)
next
  case (Marker r)
  have "doubleSpace (disclaimer @ separateDisclaimer r)"
    using Marker(2) by (simp add: separateDisclaimer_marker doubleSpace_Cons LF_def SP_def)
  then have "doubleSpace (separateDisclaimer r)"
    using disclaimer_chars by (auto simp add: doubleSpace_append)
  then show ?case using Marker(1) by (simp add: doubleSpace_append)
next
  case (Other c s)
  then show ?case
    using separateDisclaimer_head_SP
    by (auto simp add: separateDisclaimer_other doubleSpace_Cons)
qed

lemma prefix_hd: "prefix w s \<Longrightarrow> w \<noteq> [] \<Longrightarrow> hd s = hd w"
  by (auto simp add: prefix_def)

lemma prefix_before: "c \<notin> set w \<Longrightarrow> prefix w (a @ c # b) \<longleftrightarrow> prefix w a"
  by (auto simp add: prefix_append prefix_Cons)

lemma separateDisclaimer_append:
  "separateDisclaimer (a @ LF # b) = separateDisclaimer a @ LF # separateDisclaimer b"
proof (induction a rule: separateDisclaimer_induct)
  case Nil
  have "\<not> prefix disclaimer (LF # b)"
    using prefix_hd [of disclaimer "LF # b"] disclaimer_chars(3,8) by auto
  then show ?case by (simp add: separateDisclaimer_other separateDisclaimer_Nil)
next
  case (Marker r)
  then show ?case
    using separateDisclaimer_marker [of "r @ LF # b"] by (simp add: separateDisclaimer_marker)
next
  case (Other c s)
  have "\<not> prefix disclaimer ((c # s) @ LF # b)"
    using Other(1) disclaimer_chars(1) prefix_before [of LF disclaimer "c # s" b] by simp
  then show ?case using Other by (simp add: separateDisclaimer_other)
qed

lemma separateDisclaimer_join:
  "separateDisclaimer (join ls) = join (map separateDisclaimer ls)"
proof (induction ls rule: join.induct)
  case 1
  show ?case by (simp add: separateDisclaimer_Nil)
next
  case (2 l)
  show ?case by simp
next
  case (3 l m ls)
  then show ?case by (simp add: separateDisclaimer_append)
qed

lemma separateDisclaimer_last:
  "s \<noteq> [] \<Longrightarrow> separateDisclaimer s \<noteq> [] \<and> last (separateDisclaimer s) = last s"
proof (induction s rule: separateDisclaimer_induct)
  case Nil
  then show ?case by simp
next
  case (Marker r)
  show ?case
  proof (cases "r = []")
    case True
    then show ?thesis
      using separateDisclaimer_marker [of "[]"] disclaimer_chars(3)
      by (simp add: separateDisclaimer_Nil)
  next
    case False
    then show ?thesis using Marker by (simp add: separateDisclaimer_marker)
  qed
next
  case (Other c s)
  then show ?case
    by (cases "s = []") (simp_all add: separateDisclaimer_other separateDisclaimer_Nil)
qed

lemma separateDisclaimer_filter:
  "filter (\<lambda>x. x \<noteq> LF) (separateDisclaimer s) = filter (\<lambda>x. x \<noteq> LF) s"
proof (induction s rule: separateDisclaimer_induct)
  case Nil
  show ?case by (simp add: separateDisclaimer_Nil)
next
  case (Marker r)
  then show ?case by (simp add: separateDisclaimer_marker)
next
  case (Other c s)
  then show ?case by (simp add: separateDisclaimer_other)
qed

lemma separateDisclaimer_lines:
  assumes "LF \<notin> set l"
  shows "\<exists>h rest. split (separateDisclaimer l) = h # rest \<and>
           (\<forall>r\<in>set rest. prefix disclaimer r) \<and>
           (h \<noteq> [] \<longrightarrow> hd h = hd l) \<and> (h = [] \<longrightarrow> l = [] \<or> rest \<noteq> [])"
  using assms
proof (induction l rule: separateDisclaimer_induct)
  case Nil
  show ?case by (simp add: separateDisclaimer_Nil)
next
  case (Marker r)
  then obtain h rest where hr: "split (separateDisclaimer r) = h # rest"
      "\<forall>r\<in>set rest. prefix disclaimer r"
    by auto
  have "split (separateDisclaimer (disclaimer @ r)) = [] # (disclaimer @ h) # rest"
    using hr(1) disclaimer_chars(1)
    by (simp add: separateDisclaimer_marker split_prepend)
  then show ?case using hr(2) by simp
next
  case (Other c s)
  then obtain h rest where hr: "split (separateDisclaimer s) = h # rest"
      "\<forall>r\<in>set rest. prefix disclaimer r"
    by auto
  have "c \<noteq> LF" using Other(3) by auto
  then have "split (separateDisclaimer (c # s)) = (c # h) # rest"
    using hr(1) Other(1) by (simp add: separateDisclaimer_other)
  then show ?case using hr(2) by simp
qed

section \<open>Shape of the result\<close>

lemma not_blank: "l \<noteq> [] \<Longrightarrow> \<not> isWhiteSpace (hd l) \<Longrightarrow> \<not> blank l"
  by (cases l) (simp_all add: blank_def)

lemma not_blank_marker:
  assumes "prefix disclaimer r"
  shows "\<not> blank r"
proof -
  have "r \<noteq> []" using assms disclaimer_chars(3) by auto
  moreover have "hd r = hd disclaimer"
    using assms disclaimer_chars(3) by (rule prefix_hd)
  ultimately show ?thesis using disclaimer_chars(4) by (simp add: not_blank)
qed

lemma blankOnly_markers:
  "\<forall>r\<in>set rest. prefix disclaimer r \<Longrightarrow> blankOnlyBeforeDisclaimer rest"
  by (induction rest rule: blankOnlyBeforeDisclaimer.induct) (simp_all add: not_blank_marker)

lemma blankOnly_append:
  "blankOnlyBeforeDisclaimer xs \<Longrightarrow> blankOnlyBeforeDisclaimer ys \<Longrightarrow>
   blankOnlyBeforeDisclaimer (xs @ ys)"
proof (induction xs rule: blankOnlyBeforeDisclaimer.induct)
  case 1
  then show ?case by simp
next
  case (2 l)
  then show ?case by (cases ys) simp_all
next
  case (3 l m ls)
  then show ?case by simp
qed

lemma blankOnly_concat:
  "\<forall>x\<in>set xs. blankOnlyBeforeDisclaimer (f x) \<Longrightarrow>
   blankOnlyBeforeDisclaimer (concat (map f xs))"
  by (induction xs) (simp_all add: blankOnly_append)

lemma blankOnly_tail: "blankOnlyBeforeDisclaimer (x # xs) \<Longrightarrow> blankOnlyBeforeDisclaimer xs"
  by (cases xs) simp_all

lemma blankOnly_line:
  assumes "l \<noteq> []" and "\<not> isWhiteSpace (hd l)" and "LF \<notin> set l"
  shows "blankOnlyBeforeDisclaimer (split (separateDisclaimer l))"
proof -
  obtain h rest where hr: "split (separateDisclaimer l) = h # rest"
      "\<forall>r\<in>set rest. prefix disclaimer r"
      "h \<noteq> [] \<longrightarrow> hd h = hd l" "h = [] \<longrightarrow> l = [] \<or> rest \<noteq> []"
    using separateDisclaimer_lines [OF assms(3)] by blast
  have rest: "blankOnlyBeforeDisclaimer rest"
    using hr(2) by (rule blankOnly_markers)
  show ?thesis
  proof (cases rest)
    case Nil
    then have "h \<noteq> []" using hr(4) assms(1) by simp
    then have "\<not> blank h" using hr(3) assms(2) not_blank by simp
    then show ?thesis using hr(1) Nil by simp
  next
    case (Cons m ms)
    have "blank h \<Longrightarrow> h = []"
      using hr(3) assms(2) not_blank [of h] by auto
    then show ?thesis using hr(1,2) rest Cons by auto
  qed
qed

lemma trim_LF: "trim (LF # s) = trim s"
  by (simp add: trim_def isWhiteSpace_def LF_def)

lemma separated_shape:
  assumes good: "\<forall>l\<in>set ls. l \<noteq> [] \<and> \<not> isWhiteSpace (hd l) \<and> \<not> isWhiteSpace (last l) \<and>
                   LF \<notin> set l"
    and ne: "ls \<noteq> []"
  shows "(trim (separateDisclaimer (join ls)) = separateDisclaimer (join ls) \<or>
          separateDisclaimer (join ls) = LF # trim (separateDisclaimer (join ls))) \<and>
         blankOnlyBeforeDisclaimer (split (separateDisclaimer (join ls)))"
proof -
  let ?t = "join ls"
  let ?S = "separateDisclaimer ?t"
  have hdls: "hd ls \<noteq> []" and lastls: "last ls \<noteq> []"
    using good ne by simp_all
  have t: "?t \<noteq> []"
    using ne hdls by (auto simp add: join_eq_Nil)
  have hd_t: "\<not> isWhiteSpace (hd ?t)"
    using good ne hdls by (simp add: hd_join)
  have last_t: "\<not> isWhiteSpace (last ?t)"
    using good ne lastls by (simp add: last_join)
  have S: "?S \<noteq> []" and last_S: "\<not> isWhiteSpace (last ?S)"
    using separateDisclaimer_last [OF t] last_t by simp_all
  obtain c t' where ct: "?t = c # t'" using t by (cases ?t) auto
  have first: "trim ?S = ?S \<or> ?S = LF # trim ?S"
  proof (cases "prefix disclaimer (c # t')")
    case True
    define X where "X = disclaimer @ separateDisclaimer (drop 14 t')"
    have SX: "?S = LF # X"
      using True by (simp add: ct separateDisclaimer_Cons X_def)
    have "X \<noteq> []" using disclaimer_chars(3) by (simp add: X_def)
    moreover have "\<not> isWhiteSpace (hd X)"
      using disclaimer_chars(3,4) by (simp add: X_def)
    moreover have "\<not> isWhiteSpace (last X)"
      using last_S SX \<open>X \<noteq> []\<close> by simp
    ultimately have "trim X = X" by (rule trim_id)
    then show ?thesis using SX by (simp add: trim_LF)
  next
    case False
    then have "?S = c # separateDisclaimer t'"
      by (simp add: ct separateDisclaimer_other)
    then have "hd ?S = hd ?t" using ct by simp
    then have "trim ?S = ?S"
      using S hd_t last_S by (simp add: trim_id)
    then show ?thesis by simp
  qed
  have "split ?S = concat (map (\<lambda>l. split (separateDisclaimer l)) ls)"
    using ne by (simp add: separateDisclaimer_join split_join_concat comp_def)
  moreover have "\<forall>l\<in>set ls. blankOnlyBeforeDisclaimer (split (separateDisclaimer l))"
    using good blankOnly_line by blast
  ultimately have "blankOnlyBeforeDisclaimer (split ?S)"
    by (simp add: blankOnly_concat)
  then show ?thesis using first by simp
qed

lemma cleanLines_lines:
  "\<exists>ls. cleanLines t = join ls \<and>
     (\<forall>l\<in>set ls. l \<noteq> [] \<and> \<not> isWhiteSpace (hd l) \<and> \<not> isWhiteSpace (last l) \<and>
        LF \<notin> set l \<and> \<not> doubleSpace l)"
proof -
  define u where "u = collapseNewlines (collapseSpaces t)"
  define ls where "ls = filter (\<lambda>line. length line > 0) (map trim (split u))"
  have u: "\<not> doubleSpace u"
    using collapseNewlines_doubleSpace collapseSpaces_no_doubleSpace unfolding u_def by blast
  have "l \<noteq> [] \<and> \<not> isWhiteSpace (hd l) \<and> \<not> isWhiteSpace (last l) \<and>
        LF \<notin> set l \<and> \<not> doubleSpace l" if "l \<in> set ls" for l
  proof -
    have "l \<in> trim ` set (split u)" and "l \<noteq> []"
      using that by (auto simp add: ls_def)
    then obtain l0 where l0: "l0 \<in> set (split u)" "l = trim l0" "l \<noteq> []"
      by blast
    have "\<not> doubleSpace l0"
    proof
      assume "doubleSpace l0"
      then have "doubleSpace (join (split u))" using l0(1) doubleSpace_join by blast
      then show False using u by (simp add: join_split)
    qed
    then have "\<not> doubleSpace l" using l0(2) doubleSpace_trim by blast
    moreover have "LF \<notin> set l"
      using split_no_LF [OF l0(1)] set_trim [of l0] l0(2) by auto
    ultimately show ?thesis
      using trim_ends [of l0] l0(2,3) by simp
  qed
  moreover have "cleanLines t = join ls"
    by (simp add: cleanLines_def ls_def u_def)
  ultimately show ?thesis by blast
qed

lemma stripHtmlTags_lines:
  assumes "html \<noteq> []"
  shows "\<exists>ls. stripHtmlTags decode html = trim (separateDisclaimer (join ls)) \<and>
           cleanLines (decode (stripMarkup html)) = join ls \<and>
           (\<forall>l\<in>set ls. l \<noteq> [] \<and> \<not> isWhiteSpace (hd l) \<and> \<not> isWhiteSpace (last l) \<and>
              LF \<notin> set l \<and> \<not> doubleSpace l)"
proof -
  obtain ls where ls: "cleanLines (decode (stripMarkup html)) = join ls"
      "\<forall>l\<in>set ls. l \<noteq> [] \<and> \<not> isWhiteSpace (hd l) \<and> \<not> isWhiteSpace (last l) \<and>
         LF \<notin> set l \<and> \<not> doubleSpace l"
    using cleanLines_lines by blast
  have "stripHtmlTags decode html = trim (separateDisclaimer (join ls))"
    using assms ls(1) by (simp add: stripHtmlTags_def)
  then show ?thesis using ls by blast
qed

lemma stripHtmlTags_no_doubleSpace: "\<not> doubleSpace (stripHtmlTags decode html)"
proof (cases "html = []")
  case True
  then show ?thesis by (simp add: stripHtmlTags_def)
next
  case False
  then obtain ls where ls: "stripHtmlTags decode html = trim (separateDisclaimer (join ls))"
      "\<forall>l\<in>set ls. \<not> doubleSpace l"
    using stripHtmlTags_lines [of html decode] by blast
  have "\<not> doubleSpace (join ls)" using ls(2) by (simp add: doubleSpace_join)
  then show ?thesis
    using separateDisclaimer_doubleSpace doubleSpace_trim unfolding ls(1) by blast
qed

text \<open>
  Claim C10. The result of \<open>stripHtmlTags\<close>, whatever the input and whatever the
  entity decoder, holds no two consecutive spaces; when it is not empty, it neither
  begins nor ends with white space, and each of its lines that is empty or holds white
  space only is empty and stands right before a line that begins with the marker
  \<open>**Disclaimer:**\<close> (so no two such lines follow each other).
\<close>

theorem stripHtmlTags_shape:
  "\<not> doubleSpace (stripHtmlTags decode html) \<and>
   (stripHtmlTags decode html \<noteq> [] \<longrightarrow>
      \<not> isWhiteSpace (hd (stripHtmlTags decode html)) \<and>
      \<not> isWhiteSpace (last (stripHtmlTags decode html)) \<and>
      blankOnlyBeforeDisclaimer (split (stripHtmlTags decode html)))"
proof (cases "html = []")
  case True
  then show ?thesis by (simp add: stripHtmlTags_def)
next
  case False
  then obtain ls where ls: "stripHtmlTags decode html = trim (separateDisclaimer (join ls))"
      "\<forall>l\<in>set ls. l \<noteq> [] \<and> \<not> isWhiteSpace (hd l) \<and> \<not> isWhiteSpace (last l) \<and>
         LF \<notin> set l"
    using stripHtmlTags_lines [of html decode] by blast
  let ?S = "separateDisclaimer (join ls)"
  have "blankOnlyBeforeDisclaimer (split (trim ?S))" if "trim ?S \<noteq> []"
  proof -
    have "ls \<noteq> []"
      using that by (auto simp add: separateDisclaimer_Nil trim_Nil)
    then have sh: "(trim ?S = ?S \<or> ?S = LF # trim ?S) \<and> blankOnlyBeforeDisclaimer (split ?S)"
      using separated_shape [of ls] ls(2) by blast
    show ?thesis
    proof (cases "trim ?S = ?S")
      case True
      then show ?thesis using sh by simp
    next
      case False
      then have eq: "?S = LF # trim ?S" using sh by simp
      have "split ?S = [] # split (trim ?S)"
        by (subst eq) simp
      then show ?thesis using sh blankOnly_tail by metis
    qed
  qed
  then show ?thesis
    using stripHtmlTags_no_doubleSpace [of decode html] trim_ends [of ?S] by (simp add: ls(1))
qed

theorem stripHtmlTags_shape_witness:
  "stripHtmlTags (\<lambda>t. t) (js ''<p>Done.</p> <p><b>Disclaimer:</b>  no  advice</p>'') =
     js ''Done.\<newline>\<newline>**Disclaimer:** no advice'' \<and>
   \<not> doubleSpace (js ''Done.\<newline>\<newline>**Disclaimer:** no advice'') \<and>
   \<not> isWhiteSpace (hd (js ''Done.\<newline>\<newline>**Disclaimer:** no advice'')) \<and>
   \<not> isWhiteSpace (last (js ''Done.\<newline>\<newline>**Disclaimer:** no advice'')) \<and>
   blankOnlyBeforeDisclaimer (split (js ''Done.\<newline>\<newline>**Disclaimer:** no advice''))"
proof -
  have e: "stripHtmlTags (\<lambda>t. t)
             (js ''<p>Done.</p> <p><b>Disclaimer:</b>  no  advice</p>'') =
           js ''Done.\<newline>\<newline>**Disclaimer:** no advice''"
    by code_simp
  have ne: "js ''Done.\<newline>\<newline>**Disclaimer:** no advice'' \<noteq> []"
    by (simp add: js_def)
  show ?thesis
    using stripHtmlTags_shape [of "\<lambda>t. t"
        "js ''<p>Done.</p> <p><b>Disclaimer:</b>  no  advice</p>''"] ne
    unfolding e by blast
qed

section \<open>Normalizing twice\<close>

text \<open>
  On a text without \<open><\<close> the steps before the decoding change nothing, since every
  pattern of those steps begins with \<open><\<close> (\<open>stripMarkup_no_LT\<close>); on a text without
  two consecutive spaces neither does the collapsing of spaces; and collapsing the line
  feeds only removes empty lines, which the filter removes anyway.
\<close>

lemma canonicalize_LT: "canonicalize i c = canonicalize i LT \<longleftrightarrow> c = LT"
  by (auto simp add: canonicalize_def LT_def diff_eq_eq)

lemma matchItems_no_LT:
  assumes "\<forall>x xs. s = x # xs \<longrightarrow> x \<noteq> LT"
  shows "matchItems i (One (Lit LT) # r) s = None"
  using assms by (cases s) (simp_all add: matchItems_One canonicalize_LT del: matchItems.simps)

lemma replace_no_LT:
  assumes "before re = One (Lit LT) # r" and "LT \<notin> set s"
  shows "replace re t s = s"
  using assms(2)
proof (induction s)
  case Nil
  have "matchHere re [] = None"
    using matchItems_no_LT [of "[]" "ignoreCase re" "r @ group re @ after re"]
    by (simp add: matchHere_def assms(1) del: matchItems.simps)
  then show ?case by simp
next
  case (Cons c s)
  have "matchHere re (c # s) = None"
    using matchItems_no_LT [of "c # s" "ignoreCase re" "r @ group re @ after re"] Cons(2)
    by (auto simp add: matchHere_def assms(1) simp del: matchItems.simps)
  then show ?case using Cons by simp
qed

lemma stripMarkup_no_LT:
  assumes "LT \<notin> set s"
  shows "stripMarkup s = s"
proof -
  have r: "replace re t s = s" if "\<exists>r. before re = One (Lit LT) # r" for re t
    using that replace_no_LT assms by blast
  have "replace scriptRe [] s = s" "replace styleRe [] s = s"
    "replace headingRe t s = s" "replace pRe t s = s" "replace divRe t s = s"
    "replace brRe t s = s" "replace strongRe t s = s" "replace bRe t s = s"
    "replace tagRe t s = s" for t
    by (rule r, simp add: scriptRe_def styleRe_def headingRe_def pRe_def divRe_def brRe_def
          strongRe_def bRe_def tagRe_def lit_def LT_def)+
  then show ?thesis
    by (simp add: stripMarkup_def removeScriptStyle_def convertHeadings_def convertBold_def)
qed

lemma collapseSpaces_id: "\<not> doubleSpace s \<Longrightarrow> collapseSpaces s = s"
proof (induction s)
  case Nil
  show ?case by (simp add: collapseSpaces_Nil)
next
  case (Cons c s)
  then have "c = SP \<Longrightarrow> dropWhile (\<lambda>x. x = SP) s = s"
    by (cases s) (auto simp add: doubleSpace_Cons)
  then show ?case using Cons by (simp add: collapseSpaces_Cons doubleSpace_Cons)
qed

lemma lines_dropWhile_LF:
  assumes "f [] = []"
  shows "filter (\<lambda>l. length l > 0) (map f (split (dropWhile (\<lambda>x. x = LF) s))) =
         filter (\<lambda>l. length l > 0) (map f (split s))"
  using assms by (induction s) simp_all

lemma split_hd_tl: "split s = hd (split s) # tl (split s)"
  using split_not_Nil [of s] by simp

lemma lines_collapseNewlines_aux:
  assumes "f [] = []"
  shows "hd (split (collapseNewlines z)) = hd (split z) \<and>
         filter (\<lambda>l. length l > 0) (map f (tl (split (collapseNewlines z)))) =
         filter (\<lambda>l. length l > 0) (map f (tl (split z)))"
proof (induction z rule: length_induct)
  case (1 z)
  show ?case
  proof (cases z)
    case Nil
    then show ?thesis by (simp add: collapseNewlines_Nil)
  next
    case (Cons c s)
    have full: "filter (\<lambda>l. length l > 0) (map f (split (collapseNewlines y))) =
                filter (\<lambda>l. length l > 0) (map f (split y))" if "length y < length z" for y
    proof -
      have "hd (split (collapseNewlines y)) = hd (split y) \<and>
         filter (\<lambda>l. length l > 0) (map f (tl (split (collapseNewlines y)))) =
         filter (\<lambda>l. length l > 0) (map f (tl (split y)))"
        using 1 that by blast
      then show ?thesis
        using split_hd_tl [of y] split_hd_tl [of "collapseNewlines y"]
        by (metis (no_types, lifting) filter.simps(2) list.simps(9))
    qed
    show ?thesis
    proof (cases "c = LF \<and> (\<exists>r. s = LF # r)")
      case True
      define d where "d = dropWhile (\<lambda>x. x = LF) s"
      have "length d < length z"
        using Cons length_dropWhile_le [of "\<lambda>x. x = LF" s] by (simp add: d_def)
      then have "filter (\<lambda>l. length l > 0) (map f (split (collapseNewlines d))) =
                 filter (\<lambda>l. length l > 0) (map f (split d))"
        by (rule full)
      also have "\<dots> = filter (\<lambda>l. length l > 0) (map f (split s))"
        unfolding d_def using assms by (rule lines_dropWhile_LF)
      finally show ?thesis
        using True Cons by (simp add: collapseNewlines_Cons d_def)
    next
      case False
      then have eq: "collapseNewlines (c # s) = c # collapseNewlines s"
        by (auto simp add: collapseNewlines_Cons)
      have ih: "hd (split (collapseNewlines s)) = hd (split s) \<and>
         filter (\<lambda>l. length l > 0) (map f (tl (split (collapseNewlines s)))) =
         filter (\<lambda>l. length l > 0) (map f (tl (split s)))"
        using 1 Cons by simp
      have fulls: "filter (\<lambda>l. length l > 0) (map f (split (collapseNewlines s))) =
                filter (\<lambda>l. length l > 0) (map f (split s))"
        using full [of s] Cons by simp
      show ?thesis
        using ih fulls by (simp add: eq Cons split_Cons del: split.simps)
    qed
  qed
qed

lemma lines_collapseNewlines:
  assumes "f [] = []"
  shows "filter (\<lambda>l. length l > 0) (map f (split (collapseNewlines z))) =
         filter (\<lambda>l. length l > 0) (map f (split z))"
  using lines_collapseNewlines_aux [of f z] assms
    split_hd_tl [of z] split_hd_tl [of "collapseNewlines z"]
  by (metis (no_types, lifting) filter.simps(2) list.simps(9))

lemma disclaimerAfterEmpty_append:
  "disclaimerAfterEmpty (xs @ ys) \<Longrightarrow> disclaimerAfterEmpty xs \<and> disclaimerAfterEmpty ys"
proof (induction xs rule: disclaimerAfterEmpty.induct)
  case 1
  then show ?case by simp
next
  case (2 l)
  then show ?case by (cases ys) simp_all
next
  case (3 l m ls)
  then show ?case by simp
qed

lemma disclaimerAfterEmpty_concat:
  "disclaimerAfterEmpty (concat (map f xs)) \<Longrightarrow> \<forall>x\<in>set xs. disclaimerAfterEmpty (f x)"
  by (induction xs) (auto dest: disclaimerAfterEmpty_append)

lemma line_roundtrip:
  assumes "l \<noteq> []" and "\<not> isWhiteSpace (hd l)" and "\<not> isWhiteSpace (last l)"
    and "LF \<notin> set l" and "disclaimerAfterEmpty (split (separateDisclaimer l))"
  shows "filter (\<lambda>line. length line > 0) (map trim (split (separateDisclaimer l))) = [l]"
proof -
  obtain h rest where hr: "split (separateDisclaimer l) = h # rest"
      "\<forall>r\<in>set rest. prefix disclaimer r"
    using separateDisclaimer_lines [OF assms(4)] by blast
  have "concat (split (separateDisclaimer l)) = filter (\<lambda>x. x \<noteq> LF) l"
    by (simp add: concat_split separateDisclaimer_filter)
  also have "\<dots> = l" using assms(4) by (auto simp add: filter_id_conv)
  finally have whole: "h @ concat rest = l" using hr(1) by simp
  have tl: "trim l = l" using assms(1-3) by (rule trim_id)
  show ?thesis
  proof (cases rest)
    case Nil
    then show ?thesis using whole hr(1) tl assms(1) by simp
  next
    case (Cons m ms)
    have m: "prefix disclaimer m" using hr(2) Cons by simp
    then have "m \<noteq> []" using disclaimer_chars(3) by auto
    have "h = []" using assms(5) hr(1) Cons m by simp
    have "ms = []"
    proof (cases ms)
      case Nil
      then show ?thesis .
    next
      case (Cons m2 ms2)
      then have "prefix disclaimer m2" using hr(2) \<open>rest = m # ms\<close> by simp
      then have "m = []" using assms(5) hr(1) \<open>rest = m # ms\<close> Cons by simp
      then show ?thesis using \<open>m \<noteq> []\<close> by simp
    qed
    then have "m = l" using whole Cons \<open>h = []\<close> by simp
    then show ?thesis
      using hr(1) Cons \<open>h = []\<close> \<open>ms = []\<close> tl assms(1) by (simp add: trim_Nil)
  qed
qed

text \<open>
  A disclaimer marker in the middle of a line: the first pass breaks the line before the
  marker and leaves the space that stood there at the end of the line above; the second
  pass trims that line and then finds the marker at the start of a line, so it puts an
  empty line before it. The two results differ.
\<close>

theorem midline_disclaimer_counterexample:
  "stripHtmlTags (\<lambda>t. t) (js ''<p>Note. <b>Disclaimer:</b> no advice</p>'') =
     js ''Note. \<newline>**Disclaimer:** no advice'' \<and>
   stripHtmlTags (\<lambda>t. t) (js ''Note. \<newline>**Disclaimer:** no advice'') =
     js ''Note.\<newline>\<newline>**Disclaimer:** no advice'' \<and>
   stripHtmlTags (\<lambda>t. t)
     (stripHtmlTags (\<lambda>t. t) (js ''<p>Note. <b>Disclaimer:</b> no advice</p>'')) \<noteq>
   stripHtmlTags (\<lambda>t. t) (js ''<p>Note. <b>Disclaimer:</b> no advice</p>'')"
  by code_simp

text \<open>
  Claim C7, amended. Normalizing a normalized text gives it back, provided that the
  steps before the decoding leave the normalized text unchanged (its tags are stripped;
  every text without \<open><\<close> is such a text, and so is one like \<open>x < 5\<close>), that the
  entity decoder leaves it unchanged (it holds no character reference), and that each of
  its lines behind the first that begins with the marker \<open>**Disclaimer:**\<close> follows an
  empty line (no marker stood in the middle of a line).
\<close>

theorem stripHtmlTags_idempotent:
  assumes "stripMarkup (stripHtmlTags decode x) = stripHtmlTags decode x"
    and "decode (stripHtmlTags decode x) = stripHtmlTags decode x"
    and "disclaimerAfterEmpty (split (stripHtmlTags decode x))"
  shows "stripHtmlTags decode (stripHtmlTags decode x) = stripHtmlTags decode x"
proof (cases "stripHtmlTags decode x = []")
  case True
  then show ?thesis by (simp add: stripHtmlTags_def)
next
  case False
  define out where "out = stripHtmlTags decode x"
  have x: "x \<noteq> []" using False by (auto simp add: stripHtmlTags_def)
  obtain ls where ls: "cleanLines (decode (stripMarkup x)) = join ls"
      "\<forall>l\<in>set ls. l \<noteq> [] \<and> \<not> isWhiteSpace (hd l) \<and> \<not> isWhiteSpace (last l) \<and>
         LF \<notin> set l \<and> \<not> doubleSpace l"
    using cleanLines_lines by blast
  define S where "S = separateDisclaimer (join ls)"
  have out: "out = trim S"
    using x ls(1) by (simp add: out_def stripHtmlTags_def S_def)
  have ne: "ls \<noteq> []"
    using False out by (auto simp add: out_def S_def separateDisclaimer_Nil trim_Nil)
  have sh: "trim S = S \<or> S = LF # trim S"
    using separated_shape [of ls] ls(2) ne unfolding S_def by blast
  have nd: "\<not> doubleSpace out"
    using stripHtmlTags_no_doubleSpace [of decode x] by (simp add: out_def)
  have lines_eq: "filter (\<lambda>line. length line > 0) (map trim (split out)) =
                  filter (\<lambda>line. length line > 0) (map trim (split S))"
  proof (cases "trim S = S")
    case True
    then show ?thesis by (simp add: out)
  next
    case False
    then have eq: "S = LF # out" using sh out by simp
    have "split S = [] # split out" by (subst eq) simp
    then show ?thesis by (simp add: trim_Nil)
  qed
  have dae: "disclaimerAfterEmpty (split S)"
  proof (cases "trim S = S")
    case True
    then show ?thesis using assms(3) out by (simp add: out_def)
  next
    case False
    then have eq: "S = LF # out" using sh out by simp
    obtain m ms where "split out = m # ms"
      using split_not_Nil [of out] by (cases "split out") auto
    moreover have "split S = [] # split out" by (subst eq) simp
    ultimately show ?thesis
      using assms(3) by (simp add: out_def)
  qed
  have splitS: "split S = concat (map (\<lambda>l. split (separateDisclaimer l)) ls)"
    using ne by (simp add: S_def separateDisclaimer_join split_join_concat comp_def)
  then have each: "\<forall>l\<in>set ls. disclaimerAfterEmpty (split (separateDisclaimer l))"
    using dae disclaimerAfterEmpty_concat [of "\<lambda>l. split (separateDisclaimer l)" ls] by simp
  have "filter (\<lambda>line. length line > 0) (map trim (split S)) =
        concat (map (\<lambda>l. filter (\<lambda>line. length line > 0)
                       (map trim (split (separateDisclaimer l)))) ls)"
    by (simp add: splitS map_concat filter_concat comp_def)
  also have "\<dots> = concat (map (\<lambda>l. [l]) ls)"
    using ls(2) each line_roundtrip
    by (intro arg_cong [where f = concat] map_cong refl) blast
  also have "\<dots> = ls" by (rule concat_singletons)
  finally have lines: "filter (\<lambda>line. length line > 0) (map trim (split out)) = ls"
    using lines_eq by simp
  have "cleanLines out =
        join (filter (\<lambda>line. length line > 0) (map trim (split out)))"
    using nd lines_collapseNewlines [of trim out]
    by (simp add: cleanLines_def collapseSpaces_id trim_Nil)
  then have cl: "cleanLines out = join ls" using lines by simp
  have "stripMarkup out = out"
    using assms(1) by (simp add: out_def)
  moreover have "decode out = out" using assms(2) by (simp add: out_def)
  ultimately have "stripHtmlTags decode out = trim (separateDisclaimer (join ls))"
    using False cl by (simp add: stripHtmlTags_def out_def)
  then show ?thesis using out by (simp add: out_def S_def)
qed

theorem stripHtmlTags_idempotent_witness:
  "stripHtmlTags (\<lambda>t. t) (js ''<p>x < 5</p><p><b>Disclaimer:</b> no advice</p>'') =
     js ''x < 5\<newline>\<newline>**Disclaimer:** no advice'' \<and>
   stripHtmlTags (\<lambda>t. t)
     (stripHtmlTags (\<lambda>t. t) (js ''<p>x < 5</p><p><b>Disclaimer:</b> no advice</p>'')) =
   stripHtmlTags (\<lambda>t. t) (js ''<p>x < 5</p><p><b>Disclaimer:</b> no advice</p>'')"
proof -
  have e: "stripHtmlTags (\<lambda>t. t)
             (js ''<p>x < 5</p><p><b>Disclaimer:</b> no advice</p>'') =
           js ''x < 5\<newline>\<newline>**Disclaimer:** no advice''"
    by code_simp
  have a: "stripMarkup (js ''x < 5\<newline>\<newline>**Disclaimer:** no advice'') =
           js ''x < 5\<newline>\<newline>**Disclaimer:** no advice''"
    by code_simp
  have b: "disclaimerAfterEmpty (split (js ''x < 5\<newline>\<newline>**Disclaimer:** no advice''))"
    by code_simp
  show ?thesis
    using stripHtmlTags_idempotent [of "\<lambda>t. t"
        "js ''<p>x < 5</p><p><b>Disclaimer:</b> no advice</p>''"] a b
    unfolding e by simp
qed

section \<open>Blocks that span lines\<close>

text \<open>
  Claim C4. The first step is meant to remove script and style blocks with their
  contents. A block on one line is removed; a block whose contents span lines is not
  matched, since \<open>.\<close> stops at a line terminator: the step leaves it as it is, the later
  steps take the two tags away, and the script text reaches the output.
\<close>

theorem multiline_script_kept:
  "stripHtmlTags (\<lambda>t. t) (js ''<script>alert(1)</script>'') = [] \<and>
   removeScriptStyle (js ''<script>\<newline>alert(1)\<newline></script>'') =
     js ''<script>\<newline>alert(1)\<newline></script>'' \<and>
   stripMarkup (js ''<script>\<newline>alert(1)\<newline></script>'') = js ''\<newline>alert(1)\<newline>'' \<and>
   stripHtmlTags (\<lambda>t. t) (js ''<script>\<newline>alert(1)\<newline></script>'') = js ''alert(1)''"
  by code_simp

text \<open>
  Claim C5. A heading on one line becomes its text over a line of 40 \<open>=\<close>, as in the
  example of the specification. A heading whose text spans lines is not matched by the
  heading step, for the same reason as above: only its tags are stripped, and no
  separator line is written.
\<close>

theorem multiline_heading_kept:
  "stripHtmlTags (\<lambda>t. t) (js ''<h1>Title</h1><p>Body text</p>'') =
     js ''Title'' @ LF # replicate 40 (of_char CHR ''='') @ LF # js ''Body text'' \<and>
   convertHeadings (js ''<h2>\<newline>Results\<newline></h2>'') = js ''<h2>\<newline>Results\<newline></h2>'' \<and>
   stripHtmlTags (\<lambda>t. t) (js ''<h2>\<newline>Results\<newline></h2>'') = js ''Results''"
  by code_simp

text \<open>
  Claim C6. Strong and bold text on one line is wrapped in double asterisks, as in the
  example of the specification. Text that spans lines is not matched, and neither is
  text that holds a line break tag, which the earlier step has turned into a line feed:
  only the tags are stripped, and no asterisks are written.
\<close>

theorem multiline_bold_kept:
  "stripHtmlTags (\<lambda>t. t) (js ''<strong>Bold</strong> plain'') = js ''**Bold** plain'' \<and>
   stripHtmlTags (\<lambda>t. t) (js ''<b>Bold</b> plain'') = js ''**Bold** plain'' \<and>
   convertBold (js ''<b>very\<newline>bold</b>'') = js ''<b>very\<newline>bold</b>'' \<and>
   stripHtmlTags (\<lambda>t. t) (js ''<b>very\<newline>bold</b>'') = js ''very\<newline>bold'' \<and>
   stripHtmlTags (\<lambda>t. t) (js ''<strong>one<br>two</strong>'') = js ''one\<newline>two''"
  by code_simp

end
